theory Spec2Isabelle
  imports Complex_Main "HOL-Library.Log_Nat"
begin

section \<open>JavaScript values\<close>

text \<open>
  The class \<open>RabbitStressTest\<close> of \<open>Topic_Type_Exchanges/stress-test.js\<close> is embedded
  as functions on a record of its instance fields.  Arguments whose JavaScript type the
  code inspects (\<open>updateTarget\<close> tests truthiness and \<open>typeof\<close>) are values of
  \<open>jsval\<close>; \<open>JObject\<close> stands for every value that is truthy and whose \<open>typeof\<close> is
  not \<open>'number'\<close> (objects, arrays, functions).  A number is a double: not-a-number,
  an infinity, or a finite value, kept as the rational it denotes (the sign of zero is
  not kept).
\<close>

datatype jsnum = NaN | NegInfinity | Fin rat | PosInfinity

datatype jsval =
    JUndefined
  | JNull
  | JBoolean bool
  | JNumber jsnum
  | JString string
  | JObject

fun truthy :: "jsval \<Rightarrow> bool" where
  "truthy JUndefined = False"
| "truthy JNull = False"
| "truthy (JBoolean b) = b"
| "truthy (JNumber n) = (n \<noteq> NaN \<and> n \<noteq> Fin 0)"
| "truthy (JString s) = (s \<noteq> [])"
| "truthy JObject = True"

fun typeof :: "jsval \<Rightarrow> string" where
  "typeof JUndefined = ''undefined''"
| "typeof JNull = ''object''"
| "typeof (JBoolean b) = ''boolean''"
| "typeof (JNumber n) = ''number''"
| "typeof (JString s) = ''string''"
| "typeof JObject = ''object''"

text \<open>
  \<open>totalMessagesSent <= target\<close>.  The counter is kept as an integer: it starts at 0
  and only \<open>++\<close> changes it, and the increment of a double is exact below \<open>2^53\<close>, a
  count that no run can reach (at the rate of 50000 messages a second that the header
  comment reports, it is thousands of years away).  The target is any number.  A
  comparison with \<open>NaN\<close> is false.
\<close>

fun jsLe :: "int \<Rightarrow> jsnum \<Rightarrow> bool" where
  "jsLe c NaN = False"
| "jsLe c NegInfinity = False"
| "jsLe c (Fin r) = (of_int c \<le> r)"
| "jsLe c PosInfinity = True"

subsection \<open>Double arithmetic of the snapshot metrics\<close>

text \<open>
  \<open>fl\<close> rounds a rational to the nearest double, ties to even: 53 significant bits,
  gradual underflow below \<open>2^-1022\<close>, overflow to an infinity from \<open>2^1024\<close>.
  \<open>ilog2 a\<close> is the integer part of the binary logarithm of a positive \<open>a\<close>.
\<close>

definition pow2 :: "int \<Rightarrow> rat" where
  "pow2 k = (if 0 \<le> k then 2 ^ nat k else 1 / 2 ^ nat (- k))"

definition ilog2 :: "rat \<Rightarrow> int" where
  "ilog2 a = (let (p, d) = quotient_of a; k = bitlen p - bitlen d
              in if pow2 k \<le> a then k else k - 1)"

definition roundHalfEven :: "rat \<Rightarrow> int" where
  "roundHalfEven x =
     (let n = \<lfloor>x\<rfloor>; r = x - of_int n
      in if r < 1 / 2 then n else if 1 / 2 < r then n + 1
         else if even n then n else n + 1)"

definition fl :: "rat \<Rightarrow> jsnum" where
  "fl x =
     (if x = 0 then Fin 0
      else let a = \<bar>x\<bar>;
               q = pow2 (max (ilog2 a - 52) (- 1074));
               y = of_int (roundHalfEven (a / q)) * q
           in if 1024 \<le> ilog2 y then (if 0 < x then PosInfinity else NegInfinity)
              else Fin (if 0 < x then y else - y))"

fun jsDiv :: "jsnum \<Rightarrow> jsnum \<Rightarrow> jsnum" where
  "jsDiv (Fin x) (Fin y) =
     (if y \<noteq> 0 then fl (x / y)
      else if x = 0 then NaN else if 0 < x then PosInfinity else NegInfinity)"
| "jsDiv (Fin x) PosInfinity = Fin 0"
| "jsDiv (Fin x) NegInfinity = Fin 0"
| "jsDiv PosInfinity (Fin y) = (if 0 \<le> y then PosInfinity else NegInfinity)"
| "jsDiv NegInfinity (Fin y) = (if 0 \<le> y then NegInfinity else PosInfinity)"
| "jsDiv a b = NaN"

fun jsMul :: "jsnum \<Rightarrow> jsnum \<Rightarrow> jsnum" where
  "jsMul (Fin x) (Fin y) = fl (x * y)"
| "jsMul PosInfinity (Fin y) =
     (if y = 0 then NaN else if 0 < y then PosInfinity else NegInfinity)"
| "jsMul NegInfinity (Fin y) =
     (if y = 0 then NaN else if 0 < y then NegInfinity else PosInfinity)"
| "jsMul (Fin x) PosInfinity =
     (if x = 0 then NaN else if 0 < x then PosInfinity else NegInfinity)"
| "jsMul (Fin x) NegInfinity =
     (if x = 0 then NaN else if 0 < x then NegInfinity else PosInfinity)"
| "jsMul PosInfinity PosInfinity = PosInfinity"
| "jsMul NegInfinity NegInfinity = PosInfinity"
| "jsMul PosInfinity NegInfinity = NegInfinity"
| "jsMul NegInfinity PosInfinity = NegInfinity"
| "jsMul a b = NaN"

fun Math_floor :: "jsnum \<Rightarrow> jsnum" where
  "Math_floor (Fin x) = Fin (of_int \<lfloor>x\<rfloor>)"
| "Math_floor n = n"

section \<open>Data model\<close>

text \<open>
  Exchanges and bindings are the caller's objects, with the fields of the examples in
  the header comment of the source.  The code reads \<open>name\<close> and \<open>type\<close> of an
  exchange and \<open>source\<close> and \<open>routing_key\<close> of a binding; the other fields are
  carried along (\<open>binding_vhost\<close> and \<open>binding_arguments\<close> are the binding's
  \<open>vhost\<close> and \<open>arguments\<close>).
\<close>

type_synonym message = "(string \<times> string) list"

record exchange =
  name :: string
  vhost :: string
  type :: string
  durable :: bool
  auto_delete :: bool
  internal :: bool
  arguments :: "(string \<times> string) list"

record binding =
  source :: string
  binding_vhost :: string
  destination :: string
  destination_type :: string
  routing_key :: string
  binding_arguments :: "(string \<times> string) list"

text \<open>
  An element of \<open>testMessages\<close>.  \<open>exchangeType\<close> is \<open>None\<close> when the expression
  \<open>this.exchanges[binding.source].type\<close> is \<open>undefined\<close>; \<open>tm_rabbitAddress\<close> and
  \<open>tm_message\<close> are the element's \<open>rabbitAddress\<close> and \<open>message\<close>.
\<close>

record testMessage =
  exchangeName :: string
  exchangeType :: "string option"
  tm_rabbitAddress :: string
  key :: string
  tm_message :: message

text \<open>
  The broker side.  A publication is one call of \<open>channel.publish\<close>; its content is
  the message object that \<open>JSON.stringify\<close> serialises.  A channel records whether
  \<open>close\<close> was called on it and the publications it took, oldest first.
\<close>

record publication =
  pub_exchange :: string
  pub_key :: string
  pub_content :: message

record channel =
  channel_closed :: bool
  published :: "publication list"

record connection =
  peer :: string
  connection_closed :: bool

text \<open>
  The object \<open>this.exchanges\<close>.  It is created as \<open>{}\<close> and only assignments
  \<open>this.exchanges[exc.name] = exc\<close> change it.  \<open>own\<close> holds its own properties;
  \<open>proto\<close> is \<open>None\<close> while its prototype is \<open>Object.prototype\<close>, and is the
  exchange that an assignment to the key \<open>__proto__\<close> made its prototype.
\<close>

record exchangesObject =
  own :: "string \<rightharpoonup> exchange"
  proto :: "exchange option"

text \<open>
  An element of \<open>snapShots\<close>; the field \<open>snap_x\<close> is the property \<open>x\<close> of the
  object that \<open>takeSnapShot\<close> pushes.  Times are milliseconds since the epoch.  The
  snapshot holds the exchanges, the bindings and the plan as they are when it is
  taken (in the source it holds references to the objects of the session).
\<close>

record snapShot =
  snap_rabbitAddress :: string
  snap_exchanges :: exchangesObject
  snap_bindings :: "binding list"
  snap_testMessages :: "testMessage list"
  snap_testType :: string
  snap_totalMessagesSent :: int
  snap_target :: jsnum
  snap_start :: int
  snap_end :: int
  snap_testDuration :: jsnum
  snap_messageSuccessRate :: jsnum

text \<open>
  The instance.  \<open>connection\<close>, \<open>channel\<close>, \<open>start\<close>, \<open>randomNumber\<close> and
  \<open>testDuration\<close> are \<open>None\<close> while the property is absent.  \<open>target\<close> is a number:
  the constructor is given a number or nothing, and \<open>updateTarget\<close> stores numbers only.
  \<open>randomCalls\<close> and \<open>clockCalls\<close> are not fields of the class: they count the calls
  of \<open>Math.random\<close> and \<open>Date.now\<close> made so far, so that every call reads the next
  value of the environment.
\<close>

record session =
  rabbitAddress :: string
  exchanges :: exchangesObject
  bindings :: "binding list"
  readyToTest :: bool
  testMessages :: "testMessage list"
  totalMessagesSent :: int
  snapShots :: "snapShot list"
  message :: message
  target :: jsnum
  connection :: "connection option"
  channel :: "channel option"
  start :: "int option"
  randomNumber :: "jsnum option"
  testDuration :: "int option"
  randomCalls :: nat
  clockCalls :: nat

text \<open>
  The environment: whether \<open>amqp.connect\<close> and \<open>createChannel\<close> succeed for an
  address, whether \<open>channel.publish\<close> takes a publication on a channel or throws, the
  successive results of \<open>Math.random()\<close> (finite numbers) and of \<open>Date.now()\<close>.
\<close>

record env =
  amqp_connect :: "string \<Rightarrow> bool"
  createChannel :: "string \<Rightarrow> bool"
  channel_publish :: "channel \<Rightarrow> publication \<Rightarrow> bool"
  Math_random :: "nat \<Rightarrow> rat"
  Date_now :: "nat \<Rightarrow> int"

datatype error = TypeError | ConnectionError | ChannelError | PublishError

datatype outcome = Returned | Threw error

section \<open>Construction and updates\<close>

text \<open>
  \<open>this.exchanges[k] = exc\<close>.  The key \<open>__proto__\<close> is the accessor that every
  object inherits from \<open>Object.prototype\<close>: assigning an object to it sets the
  prototype and creates no own property.  Every other key becomes an own property
  (the properties an exchange or \<open>Object.prototype\<close> can hand down are writable data
  properties, so they are shadowed).
\<close>

definition emptyObject :: exchangesObject where
  "emptyObject = \<lparr>own = Map.empty, proto = None\<rparr>"

definition setProperty :: "exchangesObject \<Rightarrow> string \<Rightarrow> exchange \<Rightarrow> exchangesObject" where
  "setProperty obj k exc =
     (if k = ''__proto__'' then obj\<lparr>proto := Some exc\<rparr>
      else obj\<lparr>own := (own obj)(k \<mapsto> exc)\<rparr>)"

text \<open>
  \<open>exchanges.forEach((exc) => { this.exchanges[exc.name] = exc; })\<close>: a later
  exchange of the same name replaces an earlier one.
\<close>

fun indexExchanges :: "exchangesObject \<Rightarrow> exchange list \<Rightarrow> exchangesObject" where
  "indexExchanges obj [] = obj"
| "indexExchanges obj (exc # excs) = indexExchanges (setProperty obj (name exc) exc) excs"

definition constructor ::
  "string \<Rightarrow> exchange list \<Rightarrow> binding list \<Rightarrow> message option \<Rightarrow> jsnum option \<Rightarrow> session" where
  "constructor rabbitAddress' exchanges' bindings' message' target' =
     \<lparr> rabbitAddress = rabbitAddress',
       exchanges = indexExchanges emptyObject exchanges',
       bindings = bindings',
       readyToTest = False,
       testMessages = [],
       totalMessagesSent = 0,
       snapShots = [],
       message = (case message' of Some m \<Rightarrow> m | None \<Rightarrow> [(''type'', ''Stress Test'')]),
       target = (case target' of
                   Some n \<Rightarrow> if truthy (JNumber n) then n else Fin 1000
                 | None \<Rightarrow> Fin 1000),
       connection = None,
       channel = None,
       start = None,
       randomNumber = None,
       testDuration = None,
       randomCalls = 0,
       clockCalls = 0 \<rparr>"

text \<open>
  \<open>updateRabbitStressTest(rabbitAddress, exchanges, bindings, message)\<close>.  An
  argument is \<open>None\<close> when it is omitted (\<open>undefined\<close>) or \<open>null\<close>.  An array or an
  object is truthy even when empty; the empty string is falsy.
\<close>

definition updateRabbitStressTest ::
  "string option \<Rightarrow> exchange list option \<Rightarrow> binding list option \<Rightarrow> message option
     \<Rightarrow> session \<Rightarrow> session" where
  "updateRabbitStressTest rabbitAddress' exchanges' bindings' message' s =
     (let s1 = (case rabbitAddress' of
                  Some a \<Rightarrow> if truthy (JString a) then s\<lparr>rabbitAddress := a\<rparr> else s
                | None \<Rightarrow> s);
          s2 = (case exchanges' of
                  Some excs \<Rightarrow> s1\<lparr>exchanges := indexExchanges emptyObject excs\<rparr>
                | None \<Rightarrow> s1);
          s3 = (case bindings' of Some bs \<Rightarrow> s2\<lparr>bindings := bs\<rparr> | None \<Rightarrow> s2);
          s4 = s3\<lparr>readyToTest := False, testMessages := [], totalMessagesSent := 0\<rparr>
      in (case message' of Some m \<Rightarrow> s4\<lparr>message := m\<rparr> | None \<Rightarrow> s4))"

text \<open>
  \<open>updateTarget(target) { if (target && typeof target === 'number') this.target = target; }\<close>
\<close>

definition updateTarget :: "jsval \<Rightarrow> session \<Rightarrow> session" where
  "updateTarget target' s =
     (if truthy target' \<and> typeof target' = ''number''
      then (case target' of JNumber n \<Rightarrow> s\<lparr>target := n\<rparr> | _ \<Rightarrow> s)
      else s)"

section \<open>Broker operations\<close>

text \<open>
  \<open>connectToRabbitMQ\<close>: \<open>this.connection\<close> is assigned before \<open>createChannel\<close> is
  tried; a failure of either is logged and thrown again.
\<close>

definition connectToRabbitMQ :: "env \<Rightarrow> session \<Rightarrow> outcome \<times> session" where
  "connectToRabbitMQ env s =
     (if \<not> amqp_connect env (rabbitAddress s) then (Threw ConnectionError, s)
      else let s1 = s\<lparr>connection :=
                        Some \<lparr>peer = rabbitAddress s, connection_closed = False\<rparr>\<rparr>
           in if \<not> createChannel env (rabbitAddress s) then (Threw ChannelError, s1)
              else (Returned,
                    s1\<lparr>channel := Some \<lparr>channel_closed = False, published = []\<rparr>\<rparr>))"

text \<open>
  \<open>publishMessage(exchangeName, key, msgObj)\<close>: the counter is incremented after
  \<open>channel.publish\<close> returned; when it throws, the error is logged and thrown again and
  the increment is not reached.  With no channel, \<open>this.channel.publish\<close> is a
  \<open>TypeError\<close>.
\<close>

definition publishMessage ::
  "env \<Rightarrow> string \<Rightarrow> string \<Rightarrow> message \<Rightarrow> session \<Rightarrow> outcome \<times> session" where
  "publishMessage env exchangeName' key' msgObj s =
     (case channel s of
        None \<Rightarrow> (Threw TypeError, s)
      | Some ch \<Rightarrow>
          let p = \<lparr>pub_exchange = exchangeName', pub_key = key', pub_content = msgObj\<rparr>
          in if channel_publish env ch p
             then (Returned,
                   s\<lparr>channel := Some (ch\<lparr>published := published ch @ [p]\<rparr>),
                     totalMessagesSent := totalMessagesSent s + 1\<rparr>)
             else (Threw PublishError, s))"

text \<open>
  \<open>closeConnection\<close> is called by \<open>runTest\<close> without \<open>await\<close>: it closes the channel
  and the connection that exist, and nothing it throws reaches the caller of
  \<open>runTest\<close>.
\<close>

definition closeConnection :: "session \<Rightarrow> session" where
  "closeConnection s =
     s\<lparr>channel := map_option (\<lambda>ch. ch\<lparr>channel_closed := True\<rparr>) (channel s),
       connection := map_option (\<lambda>c. c\<lparr>connection_closed := True\<rparr>) (connection s)\<rparr>"

section \<open>Compiling the bindings: prepTests\<close>

text \<open>
  \<open>this.exchanges[binding.source].type\<close>.  The key is looked up among the own
  properties of \<open>this.exchanges\<close>, then along its prototype chain: the exchange that
  was made its prototype, if any (its properties are the fields of an exchange), and
  \<open>Object.prototype\<close>.  The key \<open>__proto__\<close> reads the prototype itself.  The value
  found is an exchange, a string or a boolean (a field of the prototype exchange), the
  \<open>arguments\<close> object of the prototype exchange, or a function or object that
  \<open>Object.prototype\<close> provides; when nothing is found it is \<open>undefined\<close>.
\<close>

datatype property =
    PUndefined
  | PExchange exchange
  | PString string
  | PBoolean bool
  | PArguments "(string \<times> string) list"
  | PBuiltin

definition Object_prototype_keys :: "string list" where
  "Object_prototype_keys =
     [''constructor'', ''__defineGetter__'', ''__defineSetter__'', ''hasOwnProperty'',
      ''__lookupGetter__'', ''__lookupSetter__'', ''isPrototypeOf'',
      ''propertyIsEnumerable'', ''toString'', ''valueOf'', ''__proto__'',
      ''toLocaleString'']"

definition exchangeProperties :: "exchange \<Rightarrow> (string \<times> property) list" where
  "exchangeProperties exc =
     [(''name'', PString (name exc)), (''vhost'', PString (vhost exc)),
      (''type'', PString (type exc)), (''durable'', PBoolean (durable exc)),
      (''auto_delete'', PBoolean (auto_delete exc)), (''internal'', PBoolean (internal exc)),
      (''arguments'', PArguments (arguments exc))]"

definition fromObjectPrototype :: "string \<Rightarrow> property" where
  "fromObjectPrototype k = (if k \<in> set Object_prototype_keys then PBuiltin else PUndefined)"

definition getProperty :: "exchangesObject \<Rightarrow> string \<Rightarrow> property" where
  "getProperty obj k =
     (case own obj k of
        Some exc \<Rightarrow> PExchange exc
      | None \<Rightarrow>
          (case proto obj of
             None \<Rightarrow> fromObjectPrototype k
           | Some p \<Rightarrow>
               if k = ''__proto__'' then PExchange p
               else (case map_of (exchangeProperties p) k of
                       Some v \<Rightarrow> v
                     | None \<Rightarrow> fromObjectPrototype k)))"

text \<open>
  Reading \<open>.type\<close>: a \<open>TypeError\<close> on \<open>undefined\<close>; the type of an exchange; the
  entry \<open>type\<close> of an \<open>arguments\<close> object, if it has one; \<open>undefined\<close> on a string,
  a boolean, and the functions and objects of \<open>Object.prototype\<close>.
\<close>

fun typeOfProperty :: "property \<Rightarrow> error + string option" where
  "typeOfProperty PUndefined = Inl TypeError"
| "typeOfProperty (PExchange exc) = Inr (Some (type exc))"
| "typeOfProperty (PArguments args) = Inr (map_of args ''type'')"
| "typeOfProperty (PString v) = Inr None"
| "typeOfProperty (PBoolean v) = Inr None"
| "typeOfProperty PBuiltin = Inr None"

definition exchangeTypeOf :: "exchangesObject \<Rightarrow> string \<Rightarrow> error + string option" where
  "exchangeTypeOf obj k = typeOfProperty (getProperty obj k)"

text \<open>
  The \<open>forEach\<close> over \<open>this.bindings\<close>: each binding pushes one element onto
  \<open>this.testMessages\<close>; the array is never emptied here.  An exception leaves the
  elements already pushed in place.
\<close>

fun forEachBinding :: "binding list \<Rightarrow> session \<Rightarrow> outcome \<times> session" where
  "forEachBinding [] s = (Returned, s)"
| "forEachBinding (b # bs) s =
     (case exchangeTypeOf (exchanges s) (source b) of
        Inl e \<Rightarrow> (Threw e, s)
      | Inr ty \<Rightarrow>
          forEachBinding bs
            (s\<lparr>testMessages := testMessages s @
                  [\<lparr>exchangeName = source b,
                    exchangeType = ty,
                    tm_rabbitAddress = rabbitAddress s,
                    key = routing_key b,
                    tm_message = message s\<rparr>]\<rparr>))"

definition prepTests :: "env \<Rightarrow> session \<Rightarrow> outcome \<times> session" where
  "prepTests env s =
     (case connectToRabbitMQ env s of
        (Threw e, s1) \<Rightarrow> (Threw e, s1)
      | (Returned, s1) \<Rightarrow>
          (case forEachBinding (bindings s1) s1 of
             (Threw e, s2) \<Rightarrow> (Threw e, s2)
           | (Returned, s2) \<Rightarrow> (Returned, s2\<lparr>readyToTest := True\<rparr>)))"

section \<open>Snapshots\<close>

text \<open>
  \<open>takeSnapShot(startDate, type)\<close> reads the clock twice, for \<open>end\<close> and for
  \<open>testDuration\<close>.  \<open>messageSuccessRate\<close> is
  \<open>Math.floor((this.totalMessagesSent / this.target) * 100)\<close> in double arithmetic.
\<close>

definition messageSuccessRate :: "int \<Rightarrow> jsnum \<Rightarrow> jsnum" where
  "messageSuccessRate sent tgt = Math_floor (jsMul (jsDiv (Fin (of_int sent)) tgt) (Fin 100))"

definition takeSnapShot :: "env \<Rightarrow> int \<Rightarrow> string \<Rightarrow> session \<Rightarrow> session" where
  "takeSnapShot env startDate type' s =
     s\<lparr>snapShots := snapShots s @
          [\<lparr>snap_rabbitAddress = rabbitAddress s,
            snap_exchanges = exchanges s,
            snap_bindings = bindings s,
            snap_testMessages = testMessages s,
            snap_testType = type',
            snap_totalMessagesSent = totalMessagesSent s,
            snap_target = target s,
            snap_start = startDate,
            snap_end = Date_now env (clockCalls s),
            snap_testDuration =
              jsDiv (Fin (of_int (Date_now env (clockCalls s + 1) - startDate))) (Fin 1000),
            snap_messageSuccessRate = messageSuccessRate (totalMessagesSent s) (target s)\<rparr>],
       clockCalls := clockCalls s + 2\<rparr>"

section \<open>Running a test\<close>

text \<open>
  \<open>for (const msg of this.testMessages) this.publishMessage(msg.exchangeName, msg.key,
  msg.message)\<close>: one pass over the plan, left at the first publish that throws.
\<close>

fun forOfTestMessages :: "env \<Rightarrow> testMessage list \<Rightarrow> session \<Rightarrow> outcome \<times> session" where
  "forOfTestMessages env [] s = (Returned, s)"
| "forOfTestMessages env (msg # msgs) s =
     (case publishMessage env (exchangeName msg) (key msg) (tm_message msg) s of
        (Returned, s1) \<Rightarrow> forOfTestMessages env msgs s1
      | (Threw e, s1) \<Rightarrow> (Threw e, s1))"

text \<open>
  \<open>Math.floor(Math.random() * this.testMessages.length)\<close>: the product is a product
  of doubles, rounded to a double before the floor is taken.
  \<open>this.testMessages[this.randomNumber]\<close> is the element at that index when the
  number is a whole number within the array and \<open>undefined\<close> otherwise, so that
  reading its \<open>exchangeName\<close> is then a \<open>TypeError\<close>.
\<close>

definition randomIndex :: "env \<Rightarrow> session \<Rightarrow> jsnum" where
  "randomIndex env s =
     Math_floor (jsMul (Fin (Math_random env (randomCalls s)))
                       (Fin (of_nat (length (testMessages s)))))"

definition elementAt :: "'a list \<Rightarrow> jsnum \<Rightarrow> 'a option" where
  "elementAt xs i =
     (case i of
        Fin q \<Rightarrow>
          if q = of_int \<lfloor>q\<rfloor> \<and> 0 \<le> q \<and> q < of_nat (length xs) then Some (xs ! nat \<lfloor>q\<rfloor>)
          else None
      | _ \<Rightarrow> None)"

definition publishRandomNumber :: "env \<Rightarrow> session \<Rightarrow> outcome \<times> session" where
  "publishRandomNumber env s =
     (case randomNumber s of
        None \<Rightarrow> (Threw TypeError, s)
      | Some i \<Rightarrow>
          (case elementAt (testMessages s) i of
             None \<Rightarrow> (Threw TypeError, s)
           | Some msg \<Rightarrow>
               publishMessage env (exchangeName msg) (key msg) (tm_message msg) s))"

text \<open>
  The four \<open>while\<close> loops of \<open>runTest\<close>.  A loop that never leaves has the value
  \<open>None\<close>; a loop left by an exception has the value \<open>Some (Threw e, s)\<close> with the
  state at the throw.
\<close>

partial_function (option) roundRobinLoop :: "env \<Rightarrow> session \<Rightarrow> (outcome \<times> session) option" where
  "roundRobinLoop env s =
     (if jsLe (totalMessagesSent s) (target s)
      then (case forOfTestMessages env (testMessages s) s of
              (Returned, s1) \<Rightarrow> roundRobinLoop env s1
            | (Threw e, s1) \<Rightarrow> Some (Threw e, s1))
      else Some (Returned, s))"

partial_function (option) randomLoop :: "env \<Rightarrow> session \<Rightarrow> (outcome \<times> session) option" where
  "randomLoop env s =
     (if jsLe (totalMessagesSent s) (target s)
      then (case publishRandomNumber env
                   (s\<lparr>randomNumber := Some (randomIndex env s),
                      randomCalls := randomCalls s + 1\<rparr>) of
              (Returned, s1) \<Rightarrow> randomLoop env s1
            | (Threw e, s1) \<Rightarrow> Some (Threw e, s1))
      else Some (Returned, s))"

partial_function (option) extendedDurationLoop ::
  "env \<Rightarrow> session \<Rightarrow> (outcome \<times> session) option" where
  "extendedDurationLoop env s =
     (if (case (start s, testDuration s) of
            (Some startDate, Some d) \<Rightarrow> Date_now env (clockCalls s) - startDate < d
          | _ \<Rightarrow> False)
      then (case forOfTestMessages env (testMessages s) (s\<lparr>clockCalls := clockCalls s + 1\<rparr>) of
              (Returned, s1) \<Rightarrow> extendedDurationLoop env s1
            | (Threw e, s1) \<Rightarrow> Some (Threw e, s1))
      else Some (Returned, s\<lparr>clockCalls := clockCalls s + 1\<rparr>))"

partial_function (option) singleBindingLoop ::
  "env \<Rightarrow> session \<Rightarrow> (outcome \<times> session) option" where
  "singleBindingLoop env s =
     (if jsLe (totalMessagesSent s) (target s)
      then (case publishRandomNumber env s of
              (Returned, s1) \<Rightarrow> singleBindingLoop env s1
            | (Threw e, s1) \<Rightarrow> Some (Threw e, s1))
      else Some (Returned, s))"

text \<open>
  The \<open>switch (type)\<close>.  \<open>delete this.randomNumber\<close> and \<open>delete this.testDuration\<close>
  are reached only when the loop was left normally; an unknown type logs an error
  and falls through to the snapshot.
\<close>

definition afterLoop ::
  "(session \<Rightarrow> session) \<Rightarrow> (outcome \<times> session) option \<Rightarrow> (outcome \<times> session) option" where
  "afterLoop f r =
     (case r of
        Some (Returned, s) \<Rightarrow> Some (Returned, f s)
      | Some (Threw e, s) \<Rightarrow> Some (Threw e, s)
      | None \<Rightarrow> None)"

definition switchType :: "env \<Rightarrow> string \<Rightarrow> session \<Rightarrow> (outcome \<times> session) option" where
  "switchType env type' s =
     (if type' = ''round-robin'' then roundRobinLoop env s
      else if type' = ''random'' then
        afterLoop (\<lambda>s1. s1\<lparr>randomNumber := None\<rparr>) (randomLoop env s)
      else if type' = ''extended-duration'' then
        afterLoop (\<lambda>s1. s1\<lparr>testDuration := None\<rparr>)
          (extendedDurationLoop env (s\<lparr>testDuration := Some 3600000\<rparr>))
      else if type' = ''single-binding'' then
        afterLoop (\<lambda>s1. s1\<lparr>randomNumber := None\<rparr>)
          (singleBindingLoop env
             (s\<lparr>randomNumber := Some (randomIndex env s),
                randomCalls := randomCalls s + 1\<rparr>))
      else Some (Returned, s))"

text \<open>
  \<open>runTest(type)\<close>: nothing happens unless \<open>readyToTest\<close>; the connection is made
  when the connection or the channel is absent; the clock is read into \<open>this.start\<close>;
  after the loop the snapshot is taken, the connection closed and the counter set to
  0.  An exception anywhere is logged and thrown again, so none of the three is done.
\<close>

definition ensureConnected :: "env \<Rightarrow> session \<Rightarrow> outcome \<times> session" where
  "ensureConnected env s =
     (if connection s = None \<or> channel s = None then connectToRabbitMQ env s
      else (Returned, s))"

definition runTest :: "env \<Rightarrow> string \<Rightarrow> session \<Rightarrow> (outcome \<times> session) option" where
  "runTest env type' s =
     (if readyToTest s = False then Some (Returned, s)
      else (case ensureConnected env s of
              (Threw e, s1) \<Rightarrow> Some (Threw e, s1)
            | (Returned, s1) \<Rightarrow>
                let startDate = Date_now env (clockCalls s1);
                    s2 = s1\<lparr>start := Some startDate, clockCalls := clockCalls s1 + 1\<rparr>
                in afterLoop
                     (\<lambda>s3. (closeConnection (takeSnapShot env startDate type' s3))
                              \<lparr>totalMessagesSent := 0\<rparr>)
                     (switchType env type' s2)))"

section \<open>Notions used in the statements\<close>

text \<open>
  The publication that \<open>publishMessage\<close> makes for an element of the plan; brokers
  that never refuse; \<open>Math.random\<close> returning what it is specified to return, a
  double in \<open>[0, 1)\<close>; the channel a run
  publishes on (the session's when it is connected, a new one otherwise); the session
  as the loop finds it and as \<open>runTest\<close> leaves it after the loop; and what a loop
  may change between two of its states: the channel gains publications of plan
  elements, the counter gains their number, the configuration and the snapshots stay.
\<close>

definition publicationOf :: "testMessage \<Rightarrow> publication" where
  "publicationOf msg = \<lparr>pub_exchange = exchangeName msg, pub_key = key msg, pub_content = tm_message msg\<rparr>"

definition publishSucceeds :: "env \<Rightarrow> bool" where
  "publishSucceeds env = (\<forall>ch p. channel_publish env ch p)"

definition randomInUnitInterval :: "env \<Rightarrow> bool" where
  "randomInUnitInterval env =
     (\<forall>k. 0 \<le> Math_random env k \<and> Math_random env k < 1 \<and>
          fl (Math_random env k) = Fin (Math_random env k))"

definition runStep :: "env \<Rightarrow> session \<Rightarrow> outcome \<Rightarrow> session \<Rightarrow> bool" where
  "runStep env s out s' \<longleftrightarrow>
     rabbitAddress s' = rabbitAddress s \<and> exchanges s' = exchanges s \<and>
     bindings s' = bindings s \<and> readyToTest s' = readyToTest s \<and>
     testMessages s' = testMessages s \<and> snapShots s' = snapShots s \<and>
     message s' = message s \<and> target s' = target s \<and> connection s' = connection s \<and>
     (case channel s of
        None \<Rightarrow> channel s' = None \<and> totalMessagesSent s' = totalMessagesSent s
      | Some ch \<Rightarrow>
          (\<exists>ps. channel s' = Some (ch\<lparr>published := published ch @ ps\<rparr>) \<and>
                totalMessagesSent s' = totalMessagesSent s + int (length ps) \<and>
                set ps \<subseteq> publicationOf ` set (testMessages s))) \<and>
     (out = Threw PublishError \<longrightarrow>
        (\<exists>ch msg. channel s' = Some ch \<and> msg \<in> set (testMessages s) \<and>
                  \<not> channel_publish env ch (publicationOf msg)))"

definition connectSucceeds :: "env \<Rightarrow> bool" where
  "connectSucceeds env = (\<forall>a. amqp_connect env a \<and> createChannel env a)"

definition freshChannel :: channel where
  "freshChannel = \<lparr>channel_closed = False, published = []\<rparr>"

definition runChannel :: "session \<Rightarrow> channel" where
  "runChannel s =
     (case (connection s, channel s) of (Some c, Some ch) \<Rightarrow> ch | _ \<Rightarrow> freshChannel)"

definition enterRun :: "env \<Rightarrow> session \<Rightarrow> session" where
  "enterRun env s =
     s\<lparr>start := Some (Date_now env (clockCalls s)), clockCalls := clockCalls s + 1\<rparr>"

definition finishRun :: "env \<Rightarrow> int \<Rightarrow> string \<Rightarrow> session \<Rightarrow> session" where
  "finishRun env startDate ty s =
     (closeConnection (takeSnapShot env startDate ty s))\<lparr>totalMessagesSent := 0\<rparr>"

section \<open>A small topology\<close>

text \<open>
  One topic exchange \<open>X\<close>, a binding of \<open>X\<close> with routing key \<open>k\<close>, a binding whose
  source \<open>Y\<close> is no exchange, a broker that takes everything, and a broker whose
  channels take three publications and refuse every later one.
\<close>

definition exchangeX :: exchange where
  "exchangeX = \<lparr>name = ''X'', vhost = ''/'', type = ''topic'', durable = True,
                 auto_delete = False, internal = False, arguments = []\<rparr>"

definition bindingK :: binding where
  "bindingK = \<lparr>source = ''X'', binding_vhost = ''/'', destination = ''Q'',
                destination_type = ''queue'', routing_key = ''k'', binding_arguments = []\<rparr>"

definition bindingUnknown :: binding where
  "bindingUnknown = \<lparr>source = ''Y'', binding_vhost = ''/'', destination = ''Q'',
                destination_type = ''queue'', routing_key = ''k2'', binding_arguments = []\<rparr>"

definition reliableEnv :: env where
  "reliableEnv = \<lparr>amqp_connect = (\<lambda>a. True), createChannel = (\<lambda>a. True),
                   channel_publish = (\<lambda>ch p. True), Math_random = (\<lambda>k. 1 / 2),
                   Date_now = (\<lambda>k. 1000 * int k)\<rparr>"

definition flakyEnv :: env where
  "flakyEnv = \<lparr>amqp_connect = (\<lambda>a. True), createChannel = (\<lambda>a. True),
                channel_publish = (\<lambda>ch p. length (published ch) < 3),
                Math_random = (\<lambda>k. 1 / 2), Date_now = (\<lambda>k. 1000 * int k)\<rparr>"

definition demoSession :: session where
  "demoSession = constructor ''amqp://localhost'' [exchangeX] [bindingK] None (Some (Fin 5))"

definition preparedSession :: session where
  "preparedSession = snd (prepTests reliableEnv demoSession)"

section \<open>More notions used in the statements\<close>

text \<open>
  The element that \<open>prepTests\<close> pushes for a binding whose source can be read; a
  binding resolves when its source is the name of an exchange that was stored as a
  key, the name of a property of \<open>Object.prototype\<close>, or, when an exchange named
  \<open>__proto__\<close> was given (it is the prototype then), the name of a field of an
  exchange;
  a session with a binding of an unknown source; the session that a run against the
  refusing broker leaves, and the same connected again; the counts that the snapshots
  of a result record, the rates they record, and the publications on its channel.
  The loops are evaluated by their defining equations.
\<close>

definition compiledEntry :: "session \<Rightarrow> binding \<Rightarrow> testMessage" where
  "compiledEntry s b =
     \<lparr>exchangeName = source b,
      exchangeType =
        (case own (exchanges s) (source b) of
           Some exc \<Rightarrow> Some (type exc)
         | None \<Rightarrow>
             (case proto (exchanges s) of
                None \<Rightarrow> None
              | Some p \<Rightarrow>
                  if source b = ''__proto__'' then Some (type p)
                  else if source b = ''arguments'' then map_of (arguments p) ''type''
                  else None)),
      tm_rabbitAddress = rabbitAddress s,
      key = routing_key b,
      tm_message = message s\<rparr>"

definition exchange_keys :: "string list" where
  "exchange_keys =
     [''name'', ''vhost'', ''type'', ''durable'', ''auto_delete'', ''internal'', ''arguments'']"

definition resolves :: "exchangesObject \<Rightarrow> binding \<Rightarrow> bool" where
  "resolves obj b \<longleftrightarrow>
     source b \<in> dom (own obj) \<or> source b \<in> set Object_prototype_keys \<or>
     (proto obj \<noteq> None \<and> source b \<in> set exchange_keys)"

definition mixedSession :: session where
  "mixedSession = constructor ''amqp://localhost'' [exchangeX] [bindingK, bindingUnknown] None None"

definition abortedSession :: session where
  "abortedSession =
     (case runTest flakyEnv ''random'' preparedSession of
        Some (out, s) \<Rightarrow> s
      | None \<Rightarrow> preparedSession)"

definition reconnectedSession :: session where
  "reconnectedSession = snd (connectToRabbitMQ flakyEnv abortedSession)"

definition recordedCounts :: "(outcome \<times> session) option \<Rightarrow> int list" where
  "recordedCounts r =
     (case r of Some (out, s) \<Rightarrow> map snap_totalMessagesSent (snapShots s) | None \<Rightarrow> [])"

definition publishedBy :: "(outcome \<times> session) option \<Rightarrow> publication list" where
  "publishedBy r =
     (case r of
        Some (out, s) \<Rightarrow> (case channel s of Some ch \<Rightarrow> published ch | None \<Rightarrow> [])
      | None \<Rightarrow> [])"

definition recordedRates :: "(outcome \<times> session) option \<Rightarrow> jsnum list" where
  "recordedRates r =
     (case r of Some (out, s) \<Rightarrow> map snap_messageSuccessRate (snapShots s) | None \<Rightarrow> [])"

text \<open>
  The exchange that a list of exchanges leaves under a name: the last one of that name.
\<close>

definition lastNamed :: "string \<Rightarrow> exchange list \<Rightarrow> exchange option" where
  "lastNamed k excs =
     (case filter (\<lambda>exc. name exc = k) excs of [] \<Rightarrow> None | e # es \<Rightarrow> Some (last (e # es)))"

text \<open>
  The loops of \<open>runTest\<close> as steps.  For each strategy: the condition of its \<open>while\<close>,
  its body, and the assignment made before the loop is entered.  An iteration leads
  from \<open>s\<close> to \<open>s1\<close> when the condition holds in \<open>s\<close> and the body returns, leaving
  \<open>s1\<close>.
\<close>

definition loopCondition :: "env \<Rightarrow> string \<Rightarrow> session \<Rightarrow> bool" where
  "loopCondition env type' s =
     (if type' = ''extended-duration''
      then (case (start s, testDuration s) of
              (Some startDate, Some d) \<Rightarrow> Date_now env (clockCalls s) - startDate < d
            | _ \<Rightarrow> False)
      else jsLe (totalMessagesSent s) (target s))"

definition loopBody :: "env \<Rightarrow> string \<Rightarrow> session \<Rightarrow> outcome \<times> session" where
  "loopBody env type' s =
     (if type' = ''round-robin'' then forOfTestMessages env (testMessages s) s
      else if type' = ''random'' then
        publishRandomNumber env
          (s\<lparr>randomNumber := Some (randomIndex env s), randomCalls := randomCalls s + 1\<rparr>)
      else if type' = ''extended-duration'' then
        forOfTestMessages env (testMessages s) (s\<lparr>clockCalls := clockCalls s + 1\<rparr>)
      else publishRandomNumber env s)"

definition loopEntry :: "env \<Rightarrow> string \<Rightarrow> session \<Rightarrow> session" where
  "loopEntry env type' s =
     (if type' = ''extended-duration'' then s\<lparr>testDuration := Some 3600000\<rparr>
      else if type' = ''single-binding'' then
        s\<lparr>randomNumber := Some (randomIndex env s), randomCalls := randomCalls s + 1\<rparr>
      else s)"

definition iteration :: "env \<Rightarrow> string \<Rightarrow> session \<Rightarrow> session \<Rightarrow> bool" where
  "iteration env type' s s1 \<longleftrightarrow>
     loopCondition env type' s \<and> loopBody env type' s = (Returned, s1)"

text \<open>
  The states of the \<open>extended-duration\<close> run of the small topology against the broker
  that refuses from the fourth publication on, after \<open>k\<close> passes.
\<close>

definition flakyState :: "nat \<Rightarrow> session" where
  "flakyState k =
     (loopEntry flakyEnv ''extended-duration'' (enterRun flakyEnv preparedSession))
       \<lparr>channel := Some (freshChannel\<lparr>published :=
                     replicate k \<lparr>pub_exchange = ''X'', pub_key = ''k'',
                                  pub_content = [(''type'', ''Stress Test'')]\<rparr>\<rparr>),
        totalMessagesSent := int k,
        clockCalls := Suc k\<rparr>"

text \<open>
  The small topology with its target set to 3; a topology of 23 bindings with the
  target 100; the rate as integer floor division would give it; a topology of three
  bindings of \<open>X\<close>, with the routing keys \<open>k0\<close>, \<open>k1\<close> and \<open>k2\<close>, and a broker
  whose \<open>Math.random\<close> returns \<open>0.6666666666666666\<close>.
\<close>

definition targetThreeSession :: session where
  "targetThreeSession = updateTarget (JNumber (Fin 3)) demoSession"

definition wideSession :: session where
  "wideSession =
     constructor ''amqp://localhost'' [exchangeX] (replicate 23 bindingK) None (Some (Fin 100))"

definition integerFloorRate :: "int \<Rightarrow> int \<Rightarrow> jsnum" where
  "integerFloorRate sent tgt = Fin (of_int ((sent * 100) div tgt))"



text \<open>
  A topology with an exchange named \<open>__proto__\<close> and a binding whose source is
  \<open>vhost\<close>.
\<close>

definition protoSession :: session where
  "protoSession =
     constructor ''amqp://localhost'' [exchangeX\<lparr>name := ''__proto__''\<rparr>]
       [bindingK\<lparr>source := ''vhost''\<rparr>] None None"

declare roundRobinLoop.simps [code] randomLoop.simps [code] singleBindingLoop.simps [code]
  extendedDurationLoop.simps [code]

section \<open>Rounding to a double\<close>

text \<open>
  \<open>ilog2\<close> is the exponent of a positive rational; rounding moves a number by at
  most half a unit in the last place.  Hence the product of a double in \<open>[0, 1)\<close>,
  which is at most \<open>1 - 2^-53\<close>, with a whole number \<open>n\<close> rounds to a double below
  \<open>n\<close>.
\<close>

lemma pow2_powi: "pow2 k = 2 powi k"
  by (simp add: pow2_def power_int_def field_simps)

lemma pow2_pos: "0 < pow2 k"
  by (simp add: pow2_powi)

lemma pow2_less_iff: "pow2 j < pow2 k \<longleftrightarrow> j < k"
proof
  assume l: "pow2 j < pow2 k"
  show "j < k"
  proof (rule ccontr)
    assume "\<not> j < k"
    then have "k \<le> j" by simp
    then have "pow2 k \<le> pow2 j"
      unfolding pow2_powi by (intro power_int_increasing) simp_all
    with l show False by simp
  qed
next
  assume "j < k"
  then show "pow2 j < pow2 k"
    unfolding pow2_powi by (intro power_int_strict_increasing) simp_all
qed

lemma pow2_le_iff: "pow2 j \<le> pow2 k \<longleftrightarrow> j \<le> k"
  using pow2_less_iff [of k j] by (simp add: not_less [symmetric])

lemma pow2_add: "pow2 (j + k) = pow2 j * pow2 k"
  by (simp add: pow2_powi power_int_add)

lemma pow2_diff: "pow2 (j - k) = pow2 j / pow2 k"
  by (simp add: pow2_powi power_int_diff)

lemma pow2_nat: "pow2 (int n) = 2 ^ n"
  by (simp add: pow2_def)

lemma bitlen_pow2_bounds:
  assumes "0 < p"
  shows "pow2 (bitlen p - 1) \<le> of_int p" "of_int p < pow2 (bitlen p)"
proof -
  from bitlen_bounds [OF assms]
  have b: "2 ^ nat (bitlen p - 1) \<le> p" "p < 2 ^ nat (bitlen p)" by simp_all
  have pos: "1 \<le> bitlen p"
    using assms bitlen_eq_zero_iff [of p] bitlen_nonneg [of p] by linarith
  have "pow2 (bitlen p - 1) = of_int (2 ^ nat (bitlen p - 1))"
    using pos by (simp add: pow2_def)
  also have "\<dots> \<le> of_int p" using b(1) by (simp only: of_int_le_iff)
  finally show "pow2 (bitlen p - 1) \<le> of_int p" .
  have "of_int p < (of_int (2 ^ nat (bitlen p)) :: rat)" using b(2) by (simp only: of_int_less_iff)
  also have "\<dots> = pow2 (bitlen p)" using pos by (simp add: pow2_def)
  finally show "of_int p < pow2 (bitlen p)" .
qed

lemma ilog2_bounds:
  assumes "0 < a"
  shows "pow2 (ilog2 a) \<le> a" "a < pow2 (ilog2 a + 1)"
proof -
  obtain p d where q: "quotient_of a = (p, d)" by (cases "quotient_of a")
  have d: "0 < d" using q by (rule quotient_of_denom_pos)
  have a: "a = of_int p / of_int d" using q by (rule quotient_of_div)
  have p: "0 < p" using assms d by (simp add: a zero_less_divide_iff)
  note bp = bitlen_pow2_bounds [OF p]
  note bd = bitlen_pow2_bounds [OF d]
  define k where "k = bitlen p - bitlen d"
  have dpos: "(0::rat) < of_int d" using d by simp
  have "a < pow2 (bitlen p) / pow2 (bitlen d - 1)"
    unfolding a using bp(2) bd(1) p pow2_pos [of "bitlen d - 1"]
    by (intro frac_less) simp_all
  then have up: "a < pow2 (k + 1)"
    by (simp add: k_def pow2_diff [symmetric] algebra_simps)
  have "pow2 (bitlen p - 1) / pow2 (bitlen d) < a"
    unfolding a using bp(1) bd(2) dpos pow2_pos [of "bitlen d"] pow2_pos [of "bitlen p - 1"]
    by (intro frac_less2) simp_all
  then have lo: "pow2 (k - 1) < a"
    by (simp add: k_def pow2_diff [symmetric] algebra_simps)
  have il: "ilog2 a = (if pow2 k \<le> a then k else k - 1)"
    by (simp add: ilog2_def q k_def)
  show "pow2 (ilog2 a) \<le> a" using lo by (simp add: il)
  show "a < pow2 (ilog2 a + 1)" using up by (auto simp: il)
qed

lemma ilog2_less:
  assumes "0 < a" and "a < pow2 k"
  shows "ilog2 a < k"
proof -
  have "pow2 (ilog2 a) < pow2 k" using ilog2_bounds(1) [OF assms(1)] assms(2) by simp
  then show ?thesis by (simp only: pow2_less_iff)
qed

lemma ilog2_ge:
  assumes "pow2 k \<le> a"
  shows "k \<le> ilog2 a"
proof -
  have "0 < a" using pow2_pos [of k] assms by simp
  from ilog2_bounds(2) [OF this] assms have "pow2 k < pow2 (ilog2 a + 1)" by simp
  then show ?thesis by (simp add: pow2_less_iff)
qed

lemma roundHalfEven_bounds:
  "of_int (roundHalfEven x) \<le> x + 1 / 2" "x - 1 / 2 \<le> of_int (roundHalfEven x)"
  "0 \<le> x \<Longrightarrow> 0 \<le> roundHalfEven x"
proof -
  have f: "of_int \<lfloor>x\<rfloor> \<le> x" "x < of_int \<lfloor>x\<rfloor> + 1" by linarith+
  show "of_int (roundHalfEven x) \<le> x + 1 / 2"
    unfolding roundHalfEven_def Let_def using f by (simp split: if_splits; linarith)
  show "x - 1 / 2 \<le> of_int (roundHalfEven x)"
    unfolding roundHalfEven_def Let_def using f by (simp split: if_splits; linarith)
  show "0 \<le> roundHalfEven x" if "0 \<le> x"
  proof -
    have "0 \<le> \<lfloor>x\<rfloor>" using that by simp
    then show ?thesis by (auto simp: roundHalfEven_def Let_def)
  qed
qed


lemma ilog2_zero: "ilog2 0 = - 2"
  by code_simp

lemma fl_positive:
  assumes "0 < x"
  shows "\<exists>q m. 0 < q \<and> q = pow2 (max (ilog2 x - 52) (- 1074)) \<and> m = roundHalfEven (x / q) \<and>
           fl x = (if 1024 \<le> ilog2 (of_int m * q) then PosInfinity else Fin (of_int m * q))"
  using assms by (simp add: fl_def Let_def pow2_pos)

lemma ulp_le:
  assumes "0 < x"
  shows "pow2 (max (ilog2 x - 52) (- 1074)) \<le> x / 2 ^ 52 \<or>
         pow2 (max (ilog2 x - 52) (- 1074)) = pow2 (- 1074)"
proof (cases "- 1074 \<le> ilog2 x - 52")
  case True
  then have m: "max (ilog2 x - 52) (- 1074) = ilog2 x - 52" by (rule max_absorb1)
  have "pow2 52 = 2 ^ 52" by (simp add: pow2_def)
  then have "pow2 (ilog2 x - 52) = pow2 (ilog2 x) / 2 ^ 52"
    by (simp only: pow2_diff)
  also have "\<dots> \<le> x / 2 ^ 52"
    using ilog2_bounds(1) [OF assms] by (intro divide_right_mono) simp_all
  finally show ?thesis unfolding m by (rule disjI1)
next
  case False
  then have "max (ilog2 x - 52) (- 1074) = - 1074" by (intro max_absorb2) simp
  then show ?thesis by (intro disjI2) (simp only:)
qed

lemma fl_product_below:
  assumes r: "0 \<le> r" "r \<le> 1 - 1 / 2 ^ 53" and n: "0 < n" "n < 2 ^ 1024"
  shows "\<exists>i. Math_floor (jsMul (Fin r) (Fin (of_nat n))) = Fin (of_int i) \<and> 0 \<le> i \<and> i < int n"
proof (cases "r = 0")
  case True
  have "Math_floor (jsMul (Fin r) (Fin (of_nat n))) = Fin (of_int 0)"
    by (simp add: True fl_def)
  then show ?thesis using n by (intro exI [of _ 0]) simp
next
  case False
  define N :: rat where "N = of_nat n"
  define x where "x = r * N"
  have N: "1 \<le> N" "N < 2 ^ 1024"
    using n by (simp_all add: N_def of_nat_less_numeral_power_cancel_iff)
  have x: "0 < x" using False r(1) N by (simp add: x_def)
  have xle: "x \<le> N - N / 2 ^ 53"
  proof -
    have "r * N \<le> (1 - 1 / 2 ^ 53) * N"
      using r(2) N by (intro mult_right_mono) simp_all
    then show ?thesis by (simp add: x_def algebra_simps)
  qed
  from fl_positive [OF x]
  obtain q m where q: "0 < q" "q = pow2 (max (ilog2 x - 52) (- 1074))"
    and m: "m = roundHalfEven (x / q)"
    and f: "fl x = (if 1024 \<le> ilog2 (of_int m * q) then PosInfinity else Fin (of_int m * q))"
    by blast
  define y where "y = of_int m * q"
  have m0: "0 \<le> m" unfolding m using x q(1) by (intro roundHalfEven_bounds(3)) simp
  have y0: "0 \<le> y" using m0 q(1) by (simp add: y_def)
  have "of_int m \<le> x / q + 1 / 2" unfolding m by (rule roundHalfEven_bounds(1))
  then have "of_int m * q \<le> (x / q + 1 / 2) * q"
    using q(1) by (intro mult_right_mono) simp_all
  then have yle: "y \<le> x + q / 2"
    using q(1) by (simp add: y_def algebra_simps)
  have "q \<le> x / 2 ^ 52 \<or> q = pow2 (- 1074)" unfolding q(2) by (rule ulp_le [OF x])
  moreover have "x / 2 ^ 52 < N / 2 ^ 52"
    using xle N by (simp add: divide_strict_right_mono)
  moreover have "pow2 (- 1074) < N / 2 ^ 52"
  proof -
    have "pow2 (- 1074) < pow2 (- 52)" by (simp add: pow2_less_iff)
    also have "pow2 (- 52) = 1 / 2 ^ 52" by (simp add: pow2_def)
    also have "\<dots> \<le> N / 2 ^ 52" using N by (simp add: divide_right_mono)
    finally show ?thesis .
  qed
  ultimately have "q < N / 2 ^ 52" by auto
  then have "q / 2 < N / 2 ^ 53" by simp
  with yle xle have yN: "y < N" by simp
  have small: "\<not> 1024 \<le> ilog2 y"
  proof (cases "y = 0")
    case True
    then show ?thesis by (simp add: ilog2_zero)
  next
    case False
    then have "0 < y" using y0 by simp
    moreover have "y < pow2 1024" using yN N by (simp add: pow2_def)
    ultimately have "ilog2 y < 1024" by (rule ilog2_less)
    then show ?thesis by simp
  qed
  have "Math_floor (jsMul (Fin r) (Fin (of_nat n))) = Fin (of_int \<lfloor>y\<rfloor>)"
    using f small by (simp add: x_def N_def y_def)
  moreover have "0 \<le> \<lfloor>y\<rfloor>" using y0 by simp
  moreover have "\<lfloor>y\<rfloor> < int n"
  proof -
    have "y < of_int (int n)" using yN by (simp add: N_def)
    then show ?thesis by (simp only: floor_less_iff)
  qed
  ultimately show ?thesis by blast
qed

lemma double_below_one:
  assumes d: "fl r = Fin r" and r: "0 \<le> r" "r < 1"
  shows "r \<le> 1 - 1 / 2 ^ 53"
proof (cases "r < 1 / 2")
  case True
  have "(1::rat) / 2 \<le> 1 - 1 / 2 ^ 53" by simp
  with True show ?thesis by simp
next
  case False
  then have x: "0 < r" by simp
  have "pow2 (- 1) \<le> r" using False by (simp add: pow2_def)
  then have lo: "- 1 \<le> ilog2 r" by (rule ilog2_ge)
  have "r < pow2 0" using r(2) by (simp add: pow2_def)
  with x have "ilog2 r < 0" by (rule ilog2_less)
  with lo have e: "ilog2 r = - 1" by simp
  from fl_positive [OF x]
  obtain q m where q: "q = pow2 (max (ilog2 r - 52) (- 1074))"
    and f: "fl r = (if 1024 \<le> ilog2 (of_int m * q) then PosInfinity else Fin (of_int m * q))"
    by blast
  have q53: "q = 1 / 2 ^ 53" by (simp add: q e pow2_def)
  have "r = of_int m * q" using f d by (simp split: if_splits)
  then have rm: "r = of_int m / 2 ^ 53" by (simp add: q53)
  then have "of_int m < (2 ^ 53 :: rat)" using r(2) by simp
  then have "of_int m < (of_int (2 ^ 53) :: rat)" by simp
  then have "m < 2 ^ 53" by (simp only: of_int_less_iff)
  then have "m \<le> 2 ^ 53 - 1" by simp
  then have "(of_int m :: rat) \<le> of_int (2 ^ 53 - 1)" by (simp only: of_int_le_iff)
  then have "(of_int m :: rat) \<le> 2 ^ 53 - 1" by simp
  then have "of_int m / 2 ^ 53 \<le> ((2 ^ 53 - 1) / 2 ^ 53 :: rat)"
    by (simp add: divide_right_mono)
  then show ?thesis unfolding rm by (simp add: diff_divide_distrib)
qed

section \<open>Publishing and the loops\<close>

lemma publishMessage_accepted:
  assumes "channel s = Some ch" and "channel_publish env ch (publicationOf msg)"
  shows "publishMessage env (exchangeName msg) (key msg) (tm_message msg) s =
           (Returned, s\<lparr>channel := Some (ch\<lparr>published := published ch @ [publicationOf msg]\<rparr>),
                        totalMessagesSent := totalMessagesSent s + 1\<rparr>)"
  using assms by (simp add: publishMessage_def publicationOf_def)

lemma publishMessage_rejected:
  assumes "channel s = Some ch" and "\<not> channel_publish env ch (publicationOf msg)"
  shows "publishMessage env (exchangeName msg) (key msg) (tm_message msg) s = (Threw PublishError, s)"
  using assms by (simp add: publishMessage_def publicationOf_def)

lemma forOfTestMessages_all_accepted:
  assumes "publishSucceeds env" and "channel s = Some ch"
  shows "forOfTestMessages env msgs s =
           (Returned, s\<lparr>channel := Some (ch\<lparr>published := published ch @ map publicationOf msgs\<rparr>),
                        totalMessagesSent := totalMessagesSent s + int (length msgs)\<rparr>)"
  using assms(2)
proof (induction msgs arbitrary: s ch)
  case Nil
  then show ?case by simp
next
  case (Cons msg msgs)
  have acc: "channel_publish env ch (publicationOf msg)"
    using assms(1) by (simp add: publishSucceeds_def)
  show ?case
    by (simp add: publishMessage_accepted [OF Cons.prems acc] Cons.IH)
qed

lemma roundRobinLoop_terminates:
  assumes acc: "publishSucceeds env"
    and plan: "testMessages s = msgs" "msgs \<noteq> []"
    and tgt: "target s = Fin (of_int t)"
    and ch: "channel s = Some ch"
  shows "\<exists>k n. roundRobinLoop env s =
            Some (Returned,
                  s\<lparr>channel := Some (ch\<lparr>published := published ch @ concat (replicate k (map publicationOf msgs))\<rparr>),
                    totalMessagesSent := n\<rparr>)
          \<and> n = totalMessagesSent s + int (k * length msgs)
          \<and> t < n
          \<and> (totalMessagesSent s \<le> t \<longrightarrow> n \<le> t + int (length msgs))
          \<and> (t < totalMessagesSent s \<longrightarrow> k = 0)"
  using plan tgt ch
proof (induction "nat (t + 1 - totalMessagesSent s)" arbitrary: s ch rule: less_induct)
  case less
  show ?case
  proof (cases "totalMessagesSent s \<le> t")
    case False
    then have "roundRobinLoop env s = Some (Returned, s)"
      by (subst roundRobinLoop.simps) (simp add: less.prems)
    moreover have "s\<lparr>channel := Some (ch\<lparr>published := published ch @ concat (replicate 0 (map publicationOf msgs))\<rparr>),
                    totalMessagesSent := totalMessagesSent s\<rparr> = s"
      using less.prems by simp
    ultimately show ?thesis using False
      by (intro exI [of _ 0] exI [of _ "totalMessagesSent s"]) simp
  next
    case True
    define ch1 where "ch1 = ch\<lparr>published := published ch @ map publicationOf msgs\<rparr>"
    define s1 where "s1 = s\<lparr>channel := Some ch1, totalMessagesSent := totalMessagesSent s + int (length msgs)\<rparr>"
    have pass: "forOfTestMessages env msgs s = (Returned, s1)"
      using forOfTestMessages_all_accepted [OF acc less.prems(4), of msgs]
      by (simp add: s1_def ch1_def)
    have unfold: "roundRobinLoop env s = roundRobinLoop env s1"
      using True by (subst roundRobinLoop.simps) (simp add: less.prems pass)
    have len: "0 < length msgs" using less.prems(2) by simp
    have "nat (t + 1 - totalMessagesSent s1) < nat (t + 1 - totalMessagesSent s)"
      using True len by (simp add: s1_def)
    from less.hyps [OF this, of ch1] less.prems
    obtain k n where res: "roundRobinLoop env s1 =
            Some (Returned,
                  s1\<lparr>channel := Some (ch1\<lparr>published := published ch1 @ concat (replicate k (map publicationOf msgs))\<rparr>),
                    totalMessagesSent := n\<rparr>)"
        and n: "n = totalMessagesSent s1 + int (k * length msgs)" "t < n"
           "totalMessagesSent s1 \<le> t \<longrightarrow> n \<le> t + int (length msgs)"
           "t < totalMessagesSent s1 \<longrightarrow> k = 0"
      by (auto simp: s1_def)
    have "roundRobinLoop env s =
            Some (Returned,
                  s\<lparr>channel := Some (ch\<lparr>published := published ch @ concat (replicate (Suc k) (map publicationOf msgs))\<rparr>),
                    totalMessagesSent := n\<rparr>)"
      unfolding unfold res by (simp add: s1_def ch1_def)
    moreover have "n = totalMessagesSent s + int (Suc k * length msgs)"
      using n(1) by (simp add: s1_def)
    moreover have "n \<le> t + int (length msgs)"
      using n True by (cases "totalMessagesSent s1 \<le> t") (auto simp: s1_def)
    ultimately show ?thesis using n(2) True
      by (intro exI [of _ "Suc k"] exI [of _ n]) simp
  qed
qed

lemma randomIndex_in_range:
  assumes "randomInUnitInterval env" and "testMessages s \<noteq> []"
    and "length (testMessages s) < 2 ^ 53"
  shows "\<exists>i. randomIndex env s = Fin (of_int i) \<and> 0 \<le> i \<and> i < int (length (testMessages s))"
proof -
  define r where "r = Math_random env (randomCalls s)"
  have r: "0 \<le> r" "r < 1" "fl r = Fin r"
    using assms(1) by (simp_all add: randomInUnitInterval_def r_def)
  have top: "r \<le> 1 - 1 / 2 ^ 53" using r(3) r(1) r(2) by (rule double_below_one)
  have n: "0 < length (testMessages s)" using assms(2) by simp
  have "(2::nat) ^ 53 < 2 ^ 1024" by simp
  with assms(3) have big: "length (testMessages s) < 2 ^ 1024" by (rule less_trans)
  from fl_product_below [OF r(1) top n big] show ?thesis
    by (simp only: randomIndex_def r_def)
qed

lemma elementAt_in_range:
  assumes "0 \<le> i" and "i < int (length xs)"
  shows "elementAt xs (Fin (of_int i)) = Some (xs ! nat i)"
proof -
  have "(of_int i :: rat) < of_int (int (length xs))" using assms(2) by (simp only: of_int_less_iff)
  then have "(of_int i :: rat) < of_nat (length xs)" by simp
  then show ?thesis using assms(1) by (simp add: elementAt_def)
qed

lemma elementAt_Some_in_set:
  assumes "elementAt xs i = Some x"
  shows "x \<in> set xs"
proof -
  from assms obtain q where q: "i = Fin q" "0 \<le> q" "q < of_nat (length xs)"
      "x = xs ! nat \<lfloor>q\<rfloor>"
    by (auto simp: elementAt_def split: jsnum.splits if_splits)
  have "of_int \<lfloor>q\<rfloor> \<le> q" by simp
  also have "q < of_int (int (length xs))" using q(3) by simp
  finally have "\<lfloor>q\<rfloor> < int (length xs)" by (simp only: of_int_less_iff)
  moreover have "0 \<le> \<lfloor>q\<rfloor>" using q(2) by simp
  ultimately have "nat \<lfloor>q\<rfloor> < length xs" by (simp add: nat_less_iff)
  then show ?thesis by (simp add: q(4))
qed

lemma singleBindingLoop_terminates:
  assumes acc: "publishSucceeds env"
    and idx: "randomNumber s = Some i" "elementAt (testMessages s) i = Some msg"
    and tgt: "target s = Fin (of_int t)"
    and ch: "channel s = Some ch"
  shows "singleBindingLoop env s =
           Some (Returned,
                 s\<lparr>channel := Some (ch\<lparr>published := published ch @
                        replicate (nat (t + 1 - totalMessagesSent s)) (publicationOf msg)\<rparr>),
                   totalMessagesSent := max (totalMessagesSent s) (t + 1)\<rparr>)"
  using idx tgt ch
proof (induction "nat (t + 1 - totalMessagesSent s)" arbitrary: s ch rule: less_induct)
  case less
  show ?case
  proof (cases "totalMessagesSent s \<le> t")
    case False
    then have "singleBindingLoop env s = Some (Returned, s)"
      by (subst singleBindingLoop.simps) (simp add: less.prems)
    moreover have "s\<lparr>channel := Some (ch\<lparr>published := published ch @
                        replicate (nat (t + 1 - totalMessagesSent s)) (publicationOf msg)\<rparr>),
                   totalMessagesSent := max (totalMessagesSent s) (t + 1)\<rparr> = s"
      using less.prems False by (simp add: max_def)
    ultimately show ?thesis by simp
  next
    case True
    define ch1 where "ch1 = ch\<lparr>published := published ch @ [publicationOf msg]\<rparr>"
    define s1 where "s1 = s\<lparr>channel := Some ch1, totalMessagesSent := totalMessagesSent s + 1\<rparr>"
    have accp: "channel_publish env ch (publicationOf msg)"
      using acc by (simp add: publishSucceeds_def)
    have pub: "publishRandomNumber env s = (Returned, s1)"
      using publishMessage_accepted [OF less.prems(4) accp]
      by (simp add: publishRandomNumber_def less.prems s1_def ch1_def)
    have unfold: "singleBindingLoop env s = singleBindingLoop env s1"
      using True by (subst singleBindingLoop.simps) (simp add: less.prems pub)
    have "nat (t + 1 - totalMessagesSent s1) < nat (t + 1 - totalMessagesSent s)"
      using True by (simp add: s1_def)
    from less.hyps [OF this, of ch1] less.prems
    have res: "singleBindingLoop env s1 =
           Some (Returned,
                 s1\<lparr>channel := Some (ch1\<lparr>published := published ch1 @
                        replicate (nat (t + 1 - totalMessagesSent s1)) (publicationOf msg)\<rparr>),
                   totalMessagesSent := max (totalMessagesSent s1) (t + 1)\<rparr>)"
      by (simp add: s1_def)
    have k: "nat (t + 1 - totalMessagesSent s) = Suc (nat (t + 1 - totalMessagesSent s1))"
      using True by (simp add: s1_def)
    show ?thesis
      unfolding unfold res k using True by (simp add: s1_def ch1_def max_def replicate_append_same)
  qed
qed

lemma randomLoop_terminates:
  assumes acc: "publishSucceeds env" and rnd: "randomInUnitInterval env"
    and small: "length msgs < 2 ^ 53"
    and plan: "testMessages s = msgs" "msgs \<noteq> []"
    and tgt: "target s = Fin (of_int t)"
    and ch: "channel s = Some ch"
  shows "\<exists>ps rn. randomLoop env s =
           Some (Returned,
                 s\<lparr>channel := Some (ch\<lparr>published := published ch @ ps\<rparr>),
                   totalMessagesSent := max (totalMessagesSent s) (t + 1),
                   randomNumber := rn,
                   randomCalls := randomCalls s + length ps\<rparr>)
          \<and> length ps = nat (t + 1 - totalMessagesSent s)
          \<and> set ps \<subseteq> publicationOf ` set msgs"
  using plan tgt ch
proof (induction "nat (t + 1 - totalMessagesSent s)" arbitrary: s ch rule: less_induct)
  case less
  show ?case
  proof (cases "totalMessagesSent s \<le> t")
    case False
    then have "randomLoop env s = Some (Returned, s)"
      by (subst randomLoop.simps) (simp add: less.prems)
    moreover have "s\<lparr>channel := Some (ch\<lparr>published := published ch @ []\<rparr>),
                   totalMessagesSent := max (totalMessagesSent s) (t + 1),
                   randomNumber := randomNumber s,
                   randomCalls := randomCalls s + length ([] :: publication list)\<rparr> = s"
      using less.prems False by (simp add: max_def)
    ultimately show ?thesis using False
      by (intro exI [of _ "[]"] exI [of _ "randomNumber s"]) simp
  next
    case True
    have "\<exists>i. randomIndex env s = Fin (of_int i) \<and> 0 \<le> i \<and> i < int (length (testMessages s))"
      using less.prems small by (intro randomIndex_in_range [OF rnd]) simp_all
    then obtain i where i: "randomIndex env s = Fin (of_int i)"
      and range: "0 \<le> i" "i < int (length msgs)"
      using less.prems by auto
    define msg where "msg = msgs ! nat i"
    define s0 where "s0 = s\<lparr>randomNumber := Some (Fin (of_int i)),
                            randomCalls := randomCalls s + 1\<rparr>"
    define ch1 where "ch1 = ch\<lparr>published := published ch @ [publicationOf msg]\<rparr>"
    define s1 where "s1 = s0\<lparr>channel := Some ch1, totalMessagesSent := totalMessagesSent s + 1\<rparr>"
    have el: "elementAt msgs (Fin (of_int i)) = Some msg"
      unfolding msg_def using range by (rule elementAt_in_range)
    have mem: "msg \<in> set msgs" using el by (rule elementAt_Some_in_set)
    have accp: "channel_publish env ch (publicationOf msg)"
      using acc by (simp add: publishSucceeds_def)
    have ch0: "channel s0 = Some ch" using less.prems by (simp add: s0_def)
    have pub: "publishRandomNumber env s0 = (Returned, s1)"
      using publishMessage_accepted [OF ch0 accp] el less.prems
      by (simp add: publishRandomNumber_def s0_def s1_def ch1_def)
    have unfold: "randomLoop env s = randomLoop env s1"
      using True pub [unfolded s0_def]
      by (subst randomLoop.simps) (simp add: less.prems i)
    have "nat (t + 1 - totalMessagesSent s1) < nat (t + 1 - totalMessagesSent s)"
      using True by (simp add: s1_def s0_def)
    from less.hyps [OF this, of ch1] less.prems
    obtain ps rn where res: "randomLoop env s1 =
           Some (Returned,
                 s1\<lparr>channel := Some (ch1\<lparr>published := published ch1 @ ps\<rparr>),
                   totalMessagesSent := max (totalMessagesSent s1) (t + 1),
                   randomNumber := rn,
                   randomCalls := randomCalls s1 + length ps\<rparr>)"
      and ps: "length ps = nat (t + 1 - totalMessagesSent s1)" "set ps \<subseteq> publicationOf ` set msgs"
      by (auto simp: s1_def s0_def)
    have "randomLoop env s =
           Some (Returned,
                 s\<lparr>channel := Some (ch\<lparr>published := published ch @ (publicationOf msg # ps)\<rparr>),
                   totalMessagesSent := max (totalMessagesSent s) (t + 1),
                   randomNumber := rn,
                   randomCalls := randomCalls s + length (publicationOf msg # ps)\<rparr>)"
      unfolding unfold res using True by (simp add: s1_def s0_def ch1_def max_def)
    moreover have "length (publicationOf msg # ps) = nat (t + 1 - totalMessagesSent s)"
      using ps(1) True by (simp add: s1_def s0_def)
    moreover have "set (publicationOf msg # ps) \<subseteq> publicationOf ` set msgs"
      using ps(2) mem by simp
    ultimately show ?thesis by blast
  qed
qed

lemma runStep_refl: "out \<noteq> Threw PublishError \<Longrightarrow> runStep env s out s"
  by (cases "channel s") (auto simp: runStep_def)

lemma runStep_Returned: "runStep env s Returned s"
  by (simp add: runStep_refl)

lemma runStep_trans:
  assumes "runStep env s Returned s1" and "runStep env s1 out s2"
  shows "runStep env s out s2"
proof (cases "channel s")
  case None
  then show ?thesis using assms by (auto simp: runStep_def)
next
  case (Some ch)
  then obtain ps where ps: "channel s1 = Some (ch\<lparr>published := published ch @ ps\<rparr>)"
      "totalMessagesSent s1 = totalMessagesSent s + int (length ps)"
      "set ps \<subseteq> publicationOf ` set (testMessages s)"
    using assms(1) by (auto simp: runStep_def)
  then obtain qs where qs: "channel s2 = Some (ch\<lparr>published := published ch @ ps @ qs\<rparr>)"
      "totalMessagesSent s2 = totalMessagesSent s1 + int (length qs)"
      "set qs \<subseteq> publicationOf ` set (testMessages s1)"
    using assms(2) by (auto simp: runStep_def)
  have same: "testMessages s1 = testMessages s" using assms(1) by (simp add: runStep_def)
  have "\<exists>rs. channel s2 = Some (ch\<lparr>published := published ch @ rs\<rparr>) \<and>
           totalMessagesSent s2 = totalMessagesSent s + int (length rs) \<and>
           set rs \<subseteq> publicationOf ` set (testMessages s)"
    using ps qs same by (intro exI [of _ "ps @ qs"]) simp
  then show ?thesis using assms Some by (simp add: runStep_def)
qed

lemma publishMessage_runStep:
  assumes "msg \<in> set (testMessages s)"
    and "publishMessage env (exchangeName msg) (key msg) (tm_message msg) s = (out, s')"
  shows "runStep env s out s'"
proof (cases "channel s")
  case None
  then show ?thesis using assms(2) by (auto simp: publishMessage_def runStep_def)
next
  case (Some ch)
  show ?thesis
  proof (cases "channel_publish env ch (publicationOf msg)")
    case True
    have "\<exists>ps. Some (ch\<lparr>published := published ch @ [publicationOf msg]\<rparr>) =
                  Some (ch\<lparr>published := published ch @ ps\<rparr>) \<and>
               totalMessagesSent s + 1 = totalMessagesSent s + int (length ps) \<and>
               set ps \<subseteq> publicationOf ` set (testMessages s)"
      using assms(1) by (intro exI [of _ "[publicationOf msg]"]) simp
    then show ?thesis
      using assms(2) Some publishMessage_accepted [OF Some True]
      by (auto simp: runStep_def)
  next
    case False
    have "\<exists>ps. Some ch = Some (ch\<lparr>published := published ch @ ps\<rparr>) \<and>
               totalMessagesSent s = totalMessagesSent s + int (length ps) \<and>
               set ps \<subseteq> publicationOf ` set (testMessages s)"
      by (intro exI [of _ "[]"]) simp
    then show ?thesis
      using assms Some False publishMessage_rejected [OF Some False]
      by (auto simp: runStep_def)
  qed
qed

lemma forOfTestMessages_runStep:
  assumes "set msgs \<subseteq> set (testMessages s)" and "forOfTestMessages env msgs s = (out, s')"
  shows "runStep env s out s'"
  using assms
proof (induction msgs arbitrary: s)
  case Nil
  then show ?case by (simp add: runStep_refl)
next
  case (Cons msg msgs)
  obtain o1 s1 where pub: "publishMessage env (exchangeName msg) (key msg) (tm_message msg) s = (o1, s1)"
    by (cases "publishMessage env (exchangeName msg) (key msg) (tm_message msg) s")
  have mem: "msg \<in> set (testMessages s)" using Cons.prems(1) by simp
  have step: "runStep env s o1 s1" using publishMessage_runStep [OF mem pub] .
  show ?case
  proof (cases o1)
    case Returned
    then have rest: "forOfTestMessages env msgs s1 = (out, s')"
      using Cons.prems(2) pub by simp
    have "testMessages s1 = testMessages s" using step by (simp add: runStep_def)
    then have "set msgs \<subseteq> set (testMessages s1)" using Cons.prems(1) by simp
    from Cons.IH [OF this rest] step Returned show ?thesis
      by (auto intro: runStep_trans)
  next
    case (Threw e)
    then show ?thesis using Cons.prems(2) pub step by simp
  qed
qed

lemma publishRandomNumber_runStep:
  assumes "publishRandomNumber env s = (out, s')"
  shows "runStep env s out s'"
proof (cases "randomNumber s")
  case None
  then show ?thesis using assms by (auto simp: publishRandomNumber_def runStep_refl)
next
  case (Some i)
  show ?thesis
  proof (cases "elementAt (testMessages s) i")
    case None
    then show ?thesis using assms Some by (auto simp: publishRandomNumber_def runStep_refl)
  next
    case (Some msg)
    then have "msg \<in> set (testMessages s)" by (rule elementAt_Some_in_set)
    then show ?thesis
      using assms Some \<open>randomNumber s = Some i\<close>
      by (auto simp: publishRandomNumber_def intro: publishMessage_runStep)
  qed
qed

lemmas roundRobinLoop_induct = roundRobinLoop.raw_induct [rotated, consumes 1, case_names step]

lemma roundRobinLoop_runStep:
  assumes "roundRobinLoop env s = Some (out, s')"
  shows "runStep env s out s'"
proof -
  have "runStep env s (fst y) (snd y)" if "roundRobinLoop env s = Some y" for env s y
    using that
  proof (induction env s y rule: roundRobinLoop_induct)
    case (step loop env s y)
    note 1 = step
    show ?case
    proof (cases "jsLe (totalMessagesSent s) (target s)")
      case False
      then show ?thesis using 1(2) by (auto simp: runStep_Returned)
    next
      case True
      obtain o1 s1 where pass: "forOfTestMessages env (testMessages s) s = (o1, s1)"
        by (cases "forOfTestMessages env (testMessages s) s")
      have step: "runStep env s o1 s1"
        by (rule forOfTestMessages_runStep [OF _ pass]) simp
      show ?thesis
      proof (cases o1)
        case Returned
        then have "loop env s1 = Some y" using 1(2) True pass by simp
        from 1(1) [OF this] step Returned show ?thesis by (auto intro: runStep_trans)
      next
        case (Threw e)
        then show ?thesis using 1(2) True pass step by auto
      qed
    qed
  qed
  from this [OF assms] show ?thesis by simp
qed

lemmas randomLoop_induct = randomLoop.raw_induct [rotated, consumes 1, case_names step]

lemmas singleBindingLoop_induct = singleBindingLoop.raw_induct [rotated, consumes 1, case_names step]

lemmas extendedDurationLoop_induct = extendedDurationLoop.raw_induct [rotated, consumes 1, case_names step]

lemma runStep_randomNumber:
  "runStep env s Returned (s\<lparr>randomNumber := rn, randomCalls := rc\<rparr>)"
  by (cases "channel s") (auto simp: runStep_def)

lemma runStep_delete_randomNumber: "runStep env s Returned (s\<lparr>randomNumber := rn\<rparr>)"
  by (cases "channel s") (auto simp: runStep_def)

lemma runStep_clockCalls: "runStep env s Returned (s\<lparr>clockCalls := n\<rparr>)"
  by (cases "channel s") (auto simp: runStep_def)

lemma runStep_testDuration: "runStep env s Returned (s\<lparr>testDuration := d\<rparr>)"
  by (cases "channel s") (auto simp: runStep_def)

lemma randomLoop_runStep:
  assumes "randomLoop env s = Some (out, s')"
  shows "runStep env s out s'"
proof -
  have "runStep env s (fst y) (snd y)" if "randomLoop env s = Some y" for env s y
    using that
  proof (induction env s y rule: randomLoop_induct)
    case (step loop env s y)
    show ?case
    proof (cases "jsLe (totalMessagesSent s) (target s)")
      case False
      then show ?thesis using step(2) by (auto simp: runStep_Returned)
    next
      case True
      define s0 where "s0 = s\<lparr>randomNumber := Some (randomIndex env s),
                              randomCalls := randomCalls s + 1\<rparr>"
      obtain o1 s1 where pub: "publishRandomNumber env s0 = (o1, s1)"
        by (cases "publishRandomNumber env s0")
      have "runStep env s Returned s0"
        unfolding s0_def by (rule runStep_randomNumber)
      from runStep_trans [OF this publishRandomNumber_runStep [OF pub]]
      have st: "runStep env s o1 s1" .
      show ?thesis
      proof (cases o1)
        case Returned
        then have "loop env s1 = Some y"
          using step(2) True pub by (simp add: s0_def)
        from step(1) [OF this] st Returned show ?thesis by (auto intro: runStep_trans)
      next
        case (Threw e)
        then show ?thesis using step(2) True pub st by (auto simp: s0_def)
      qed
    qed
  qed
  from this [OF assms] show ?thesis by simp
qed

lemma singleBindingLoop_runStep:
  assumes "singleBindingLoop env s = Some (out, s')"
  shows "runStep env s out s'"
proof -
  have "runStep env s (fst y) (snd y)" if "singleBindingLoop env s = Some y" for env s y
    using that
  proof (induction env s y rule: singleBindingLoop_induct)
    case (step loop env s y)
    show ?case
    proof (cases "jsLe (totalMessagesSent s) (target s)")
      case False
      then show ?thesis using step(2) by (auto simp: runStep_Returned)
    next
      case True
      obtain o1 s1 where pub: "publishRandomNumber env s = (o1, s1)"
        by (cases "publishRandomNumber env s")
      have st: "runStep env s o1 s1" using publishRandomNumber_runStep [OF pub] .
      show ?thesis
      proof (cases o1)
        case Returned
        then have "loop env s1 = Some y" using step(2) True pub by simp
        from step(1) [OF this] st Returned show ?thesis by (auto intro: runStep_trans)
      next
        case (Threw e)
        then show ?thesis using step(2) True pub st by auto
      qed
    qed
  qed
  from this [OF assms] show ?thesis by simp
qed

lemma extendedDurationLoop_runStep:
  assumes "extendedDurationLoop env s = Some (out, s')"
  shows "runStep env s out s'"
proof -
  have "runStep env s (fst y) (snd y)" if "extendedDurationLoop env s = Some y" for env s y
    using that
  proof (induction env s y rule: extendedDurationLoop_induct)
    case (step loop env s y)
    define s0 where "s0 = s\<lparr>clockCalls := clockCalls s + 1\<rparr>"
    have tick: "runStep env s Returned s0"
      unfolding s0_def by (rule runStep_clockCalls)
    define go where "go = (case (start s, testDuration s) of
            (Some startDate, Some d) \<Rightarrow> Date_now env (clockCalls s) - startDate < d
          | _ \<Rightarrow> False)"
    show ?case
    proof (cases go)
      case False
      then show ?thesis using step(2) tick by (auto simp: go_def s0_def)
    next
      case True
      obtain o1 s1 where pass: "forOfTestMessages env (testMessages s) s0 = (o1, s1)"
        by (cases "forOfTestMessages env (testMessages s) s0")
      have "runStep env s0 o1 s1"
        by (rule forOfTestMessages_runStep [OF _ pass]) (simp add: s0_def)
      from runStep_trans [OF tick this] have st: "runStep env s o1 s1" .
      show ?thesis
      proof (cases o1)
        case Returned
        then have "loop env s1 = Some y"
          using step(2) True pass by (simp add: go_def s0_def)
        from step(1) [OF this] st Returned show ?thesis by (auto intro: runStep_trans)
      next
        case (Threw e)
        then show ?thesis using step(2) True pass st by (auto simp: go_def s0_def)
      qed
    qed
  qed
  from this [OF assms] show ?thesis by simp
qed

lemma afterLoop_Some:
  "afterLoop f r = Some (out, s') \<longleftrightarrow>
     (out = Returned \<and> (\<exists>s1. r = Some (Returned, s1) \<and> s' = f s1)) \<or>
     (\<exists>e. out = Threw e \<and> r = Some (Threw e, s'))"
  by (auto simp: afterLoop_def split: option.splits outcome.splits prod.splits)

lemma switchType_runStep:
  assumes "switchType env ty s = Some (out, s')"
  shows "runStep env s out s'"
proof -
  consider (rr) "ty = ''round-robin''" | (rnd) "ty = ''random''"
    | (ext) "ty = ''extended-duration''" | (single) "ty = ''single-binding''"
    | (other) "ty \<noteq> ''round-robin''" "ty \<noteq> ''random''" "ty \<noteq> ''extended-duration''"
        "ty \<noteq> ''single-binding''"
    by blast
  then show ?thesis
  proof cases
    case rr
    then show ?thesis using assms by (simp add: switchType_def roundRobinLoop_runStep)
  next
    case rnd
    then have "afterLoop (\<lambda>s1. s1\<lparr>randomNumber := None\<rparr>) (randomLoop env s) = Some (out, s')"
      using assms by (simp add: switchType_def)
    then show ?thesis
      by (auto simp: afterLoop_Some dest!: randomLoop_runStep
               intro: runStep_trans runStep_delete_randomNumber)
  next
    case ext
    define s0 where "s0 = s\<lparr>testDuration := Some 3600000\<rparr>"
    have init: "runStep env s Returned s0"
      unfolding s0_def by (rule runStep_testDuration)
    have "afterLoop (\<lambda>s1. s1\<lparr>testDuration := None\<rparr>) (extendedDurationLoop env s0) = Some (out, s')"
      using assms ext by (simp add: switchType_def s0_def)
    then have "runStep env s0 out s'"
      by (auto simp: afterLoop_Some dest!: extendedDurationLoop_runStep
               intro: runStep_trans runStep_testDuration)
    with init show ?thesis by (rule runStep_trans)
  next
    case single
    define s0 where "s0 = s\<lparr>randomNumber := Some (randomIndex env s),
                            randomCalls := randomCalls s + 1\<rparr>"
    have init: "runStep env s Returned s0"
      unfolding s0_def by (rule runStep_randomNumber)
    have "afterLoop (\<lambda>s1. s1\<lparr>randomNumber := None\<rparr>) (singleBindingLoop env s0) = Some (out, s')"
      using assms single by (simp add: switchType_def s0_def)
    then have "runStep env s0 out s'"
      by (auto simp: afterLoop_Some dest!: singleBindingLoop_runStep
               intro: runStep_trans runStep_delete_randomNumber)
    with init show ?thesis by (rule runStep_trans)
  next
    case other
    then show ?thesis using assms by (auto simp: switchType_def runStep_Returned)
  qed
qed

lemma runTest_unfold:
  "runTest env ty s =
     (if \<not> readyToTest s then Some (Returned, s)
      else (case ensureConnected env s of
              (Threw e, s1) \<Rightarrow> Some (Threw e, s1)
            | (Returned, s1) \<Rightarrow>
                afterLoop (finishRun env (Date_now env (clockCalls s1)) ty)
                  (switchType env ty (enterRun env s1))))"
proof -
  have fin: "(\<lambda>s3. (closeConnection (takeSnapShot env st ty s3))\<lparr>totalMessagesSent := 0\<rparr>) =
             finishRun env st ty" for st
    by (simp add: fun_eq_iff finishRun_def)
  show ?thesis
    unfolding runTest_def Let_def fin enterRun_def
    by (simp split: prod.splits outcome.splits)
qed

lemma ensureConnected_Returned:
  assumes "ensureConnected env s = (Returned, s1)"
  shows "channel s1 = Some (runChannel s) \<and> connection s1 \<noteq> None \<and>
         rabbitAddress s1 = rabbitAddress s \<and> exchanges s1 = exchanges s \<and>
         bindings s1 = bindings s \<and> readyToTest s1 = readyToTest s \<and>
         testMessages s1 = testMessages s \<and> snapShots s1 = snapShots s \<and>
         message s1 = message s \<and> target s1 = target s \<and>
         totalMessagesSent s1 = totalMessagesSent s \<and> randomCalls s1 = randomCalls s \<and>
         clockCalls s1 = clockCalls s"
  using assms
  by (auto simp: ensureConnected_def connectToRabbitMQ_def runChannel_def freshChannel_def Let_def
           split: if_splits option.splits)

lemma ensureConnected_Threw:
  assumes "ensureConnected env s = (Threw e, s1)"
  shows "e \<noteq> PublishError \<and> totalMessagesSent s1 = totalMessagesSent s \<and>
         snapShots s1 = snapShots s \<and> testMessages s1 = testMessages s"
  using assms
  by (auto simp: ensureConnected_def connectToRabbitMQ_def Let_def split: if_splits)

lemma ensureConnected_succeeds:
  assumes "connectSucceeds env"
  shows "\<exists>s1. ensureConnected env s = (Returned, s1)"
  using assms
  by (auto simp: ensureConnected_def connectToRabbitMQ_def connectSucceeds_def Let_def)

lemma enterRun_fields:
  "channel (enterRun env s) = channel s" "testMessages (enterRun env s) = testMessages s"
  "target (enterRun env s) = target s" "totalMessagesSent (enterRun env s) = totalMessagesSent s"
  "snapShots (enterRun env s) = snapShots s" "randomCalls (enterRun env s) = randomCalls s"
  "randomNumber (enterRun env s) = randomNumber s" "readyToTest (enterRun env s) = readyToTest s"
  "connection (enterRun env s) = connection s"
  by (simp_all add: enterRun_def)

lemma finishRun_fields:
  "totalMessagesSent (finishRun env st ty s) = 0"
  "snapShots (finishRun env st ty s) = snapShots s @
     [\<lparr>snap_rabbitAddress = rabbitAddress s, snap_exchanges = exchanges s,
       snap_bindings = bindings s, snap_testMessages = testMessages s, snap_testType = ty,
       snap_totalMessagesSent = totalMessagesSent s, snap_target = target s,
       snap_start = st, snap_end = Date_now env (clockCalls s),
       snap_testDuration = jsDiv (Fin (of_int (Date_now env (clockCalls s + 1) - st))) (Fin 1000),
       snap_messageSuccessRate = messageSuccessRate (totalMessagesSent s) (target s)\<rparr>]"
  "channel (finishRun env st ty s) = map_option (\<lambda>ch. ch\<lparr>channel_closed := True\<rparr>) (channel s)"
  "testMessages (finishRun env st ty s) = testMessages s"
  "readyToTest (finishRun env st ty s) = readyToTest s"
  "randomCalls (finishRun env st ty s) = randomCalls s"
  by (simp_all add: finishRun_def closeConnection_def takeSnapShot_def)

lemma runTest_result:
  assumes "runTest env ty s = Some (out, s')" and "readyToTest s"
  shows "(\<exists>e. out = Threw e \<and> ensureConnected env s = (Threw e, s')) \<or>
         (\<exists>s1. ensureConnected env s = (Returned, s1) \<and>
            ((\<exists>e. out = Threw e \<and> switchType env ty (enterRun env s1) = Some (Threw e, s')) \<or>
             (\<exists>s3. out = Returned \<and> switchType env ty (enterRun env s1) = Some (Returned, s3) \<and>
                   s' = finishRun env (Date_now env (clockCalls s1)) ty s3)))"
proof -
  obtain o1 s1 where ec: "ensureConnected env s = (o1, s1)"
    by (cases "ensureConnected env s")
  show ?thesis
  proof (cases o1)
    case (Threw e)
    then show ?thesis using assms ec by (auto simp: runTest_unfold)
  next
    case Returned
    then have "afterLoop (finishRun env (Date_now env (clockCalls s1)) ty)
                 (switchType env ty (enterRun env s1)) = Some (out, s')"
      using assms ec by (simp add: runTest_unfold)
    then show ?thesis using ec Returned by (auto simp: afterLoop_Some)
  qed
qed

lemma runTest_completes:
  assumes "readyToTest s" and "ensureConnected env s = (Returned, s1)"
    and "switchType env ty (enterRun env s1) = Some (Returned, s3)"
  shows "runTest env ty s = Some (Returned, finishRun env (Date_now env (clockCalls s1)) ty s3)"
  using assms by (simp add: runTest_unfold afterLoop_def)

section \<open>Updating the target\<close>

text \<open>
  Claim C2, as the code has it.  \<open>updateTarget(n)\<close> stores \<open>n\<close> exactly when \<open>n\<close> is
  a number other than \<open>0\<close> and \<open>NaN\<close>, negative numbers included, and changes nothing
  for every other argument: \<open>updateTarget(-5)\<close> sets the target to \<open>-5\<close>,
  \<open>updateTarget("abc")\<close> leaves it, \<open>updateTarget(42)\<close> sets it to 42.  No other
  field changes, and the function always returns.
\<close>

theorem updateTarget_effect:
  "(\<forall>n. n \<noteq> NaN \<and> n \<noteq> Fin 0 \<longrightarrow> updateTarget (JNumber n) s = s\<lparr>target := n\<rparr>) \<and>
   updateTarget (JNumber NaN) s = s \<and>
   updateTarget (JNumber (Fin 0)) s = s \<and>
   ((\<forall>n. v \<noteq> JNumber n) \<longrightarrow> updateTarget v s = s) \<and>
   updateTarget (JNumber (Fin (- 5))) s = s\<lparr>target := Fin (- 5)\<rparr> \<and>
   updateTarget (JString ''abc'') s = s \<and>
   updateTarget (JNumber (Fin 42)) s = s\<lparr>target := Fin 42\<rparr>"
  by (cases v) (simp_all add: updateTarget_def)

theorem updateTarget_effect_witness:
  "updateTarget (JNumber (Fin 7)) demoSession = demoSession\<lparr>target := Fin 7\<rparr> \<and>
   updateTarget JNull demoSession = demoSession"
  using updateTarget_effect [of demoSession JNull] by simp

text \<open>
  The claim as the specification words it fails: on a session whose target is 5,
  \<open>updateTarget(-5)\<close> changes the target.
\<close>

theorem updateTarget_negative_counterexample:
  "target (updateTarget (JNumber (Fin (- 5))) demoSession) \<noteq> target demoSession"
  by (simp add: updateTarget_def demoSession_def constructor_def)

section \<open>Updating the configuration\<close>

lemma lastNamed_Nil: "lastNamed k [] = None"
  by (simp add: lastNamed_def)

lemma lastNamed_Cons:
  "lastNamed k (exc # excs) =
     (case lastNamed k excs of
        Some e \<Rightarrow> Some e
      | None \<Rightarrow> if name exc = k then Some exc else None)"
  by (simp add: lastNamed_def split: list.splits)

lemma indexExchanges_own:
  "own (indexExchanges obj excs) k =
     (if k = ''__proto__'' then own obj k
      else (case lastNamed k excs of None \<Rightarrow> own obj k | Some e \<Rightarrow> Some e))"
proof (induction excs arbitrary: obj)
  case Nil
  then show ?case by (simp add: lastNamed_Nil)
next
  case (Cons exc excs)
  show ?case
    by (simp add: Cons.IH lastNamed_Cons setProperty_def split: option.splits)
qed

lemma indexExchanges_proto:
  "proto (indexExchanges obj excs) =
     (case lastNamed ''__proto__'' excs of None \<Rightarrow> proto obj | Some e \<Rightarrow> Some e)"
proof (induction excs arbitrary: obj)
  case Nil
  then show ?case by (simp add: lastNamed_Nil)
next
  case (Cons exc excs)
  show ?case
    by (simp add: Cons.IH lastNamed_Cons setProperty_def split: option.splits)
qed

lemma indexExchanges_emptyObject:
  "indexExchanges emptyObject excs =
     \<lparr>own = (\<lambda>k. if k = ''__proto__'' then None else lastNamed k excs),
      proto = lastNamed ''__proto__'' excs\<rparr>"
  by (rule exchangesObject.equality)
     (simp_all add: fun_eq_iff indexExchanges_own indexExchanges_proto emptyObject_def
        split: option.splits)

text \<open>
  Claim C6.  \<open>updateRabbitStressTest\<close> keeps the address when the argument is omitted
  or the empty string, and the exchanges, the bindings and the message when theirs are
  omitted; an argument that is provided replaces the old value; \<open>readyToTest\<close>
  becomes false, the plan empty and the counter 0.  Every other field, the snapshot
  history among them, is what it was.  The exchanges that are provided replace the old
  object by a new one: under every name other than \<open>__proto__\<close> it holds the last
  exchange given with that name, and nothing under a name that no given exchange has;
  the last exchange named \<open>__proto__\<close>, if there is one, is its prototype and not a
  key.
\<close>

theorem updateRabbitStressTest_effect:
  "updateRabbitStressTest a excs bs msg s =
     s\<lparr>rabbitAddress :=
         (case a of None \<Rightarrow> rabbitAddress s | Some x \<Rightarrow> if x = [] then rabbitAddress s else x),
       exchanges :=
         (case excs of
            None \<Rightarrow> exchanges s
          | Some xs \<Rightarrow>
              \<lparr>own = (\<lambda>k. if k = ''__proto__'' then None else lastNamed k xs),
               proto = lastNamed ''__proto__'' xs\<rparr>),
       bindings := (case bs of None \<Rightarrow> bindings s | Some ys \<Rightarrow> ys),
       readyToTest := False,
       testMessages := [],
       totalMessagesSent := 0,
       message := (case msg of None \<Rightarrow> message s | Some m \<Rightarrow> m)\<rparr> \<and>
   snapShots (updateRabbitStressTest a excs bs msg s) = snapShots s"
  by (simp add: updateRabbitStressTest_def Let_def indexExchanges_emptyObject
        split: option.splits)

text \<open>
  On the small topology: an update that gives an address, an empty list of bindings
  and the two exchanges \<open>Y\<close> and \<open>Z\<close> stores each of the two under its name, drops
  \<open>X\<close>, and keeps the message.
\<close>

theorem updateRabbitStressTest_effect_witness:
  "snapShots (updateRabbitStressTest (Some ''amqp://other'')
                (Some [exchangeX\<lparr>name := ''Y''\<rparr>, exchangeX\<lparr>name := ''Z''\<rparr>]) (Some []) None
                demoSession) = snapShots demoSession \<and>
   rabbitAddress (updateRabbitStressTest (Some ''amqp://other'')
                (Some [exchangeX\<lparr>name := ''Y''\<rparr>, exchangeX\<lparr>name := ''Z''\<rparr>]) (Some []) None
                demoSession) = ''amqp://other'' \<and>
   bindings (updateRabbitStressTest (Some ''amqp://other'')
                (Some [exchangeX\<lparr>name := ''Y''\<rparr>, exchangeX\<lparr>name := ''Z''\<rparr>]) (Some []) None
                demoSession) = [] \<and>
   message (updateRabbitStressTest (Some ''amqp://other'')
                (Some [exchangeX\<lparr>name := ''Y''\<rparr>, exchangeX\<lparr>name := ''Z''\<rparr>]) (Some []) None
                demoSession) = message demoSession \<and>
   own (exchanges (updateRabbitStressTest (Some ''amqp://other'')
                (Some [exchangeX\<lparr>name := ''Y''\<rparr>, exchangeX\<lparr>name := ''Z''\<rparr>]) (Some []) None
                demoSession)) ''Y'' = Some (exchangeX\<lparr>name := ''Y''\<rparr>) \<and>
   own (exchanges (updateRabbitStressTest (Some ''amqp://other'')
                (Some [exchangeX\<lparr>name := ''Y''\<rparr>, exchangeX\<lparr>name := ''Z''\<rparr>]) (Some []) None
                demoSession)) ''Z'' = Some (exchangeX\<lparr>name := ''Z''\<rparr>) \<and>
   own (exchanges (updateRabbitStressTest (Some ''amqp://other'')
                (Some [exchangeX\<lparr>name := ''Y''\<rparr>, exchangeX\<lparr>name := ''Z''\<rparr>]) (Some []) None
                demoSession)) ''X'' = None"
  using updateRabbitStressTest_effect
          [of "Some ''amqp://other''" "Some [exchangeX\<lparr>name := ''Y''\<rparr>, exchangeX\<lparr>name := ''Z''\<rparr>]"
              "Some []" None demoSession]
  by (simp add: lastNamed_def)

section \<open>Runs that complete\<close>

lemma roundRobinLoop_empty_plan:
  assumes "testMessages s = []" and "jsLe (totalMessagesSent s) (target s)"
  shows "roundRobinLoop env s = None"
proof -
  have "False"
    if "roundRobinLoop env s = Some y" "testMessages s = []"
       "jsLe (totalMessagesSent s) (target s)" for env s y
    using that
  proof (induction env s y rule: roundRobinLoop_induct)
    case (step loop env s y)
    from step(2) step(3) step(4) have "loop env s = Some y" by simp
    from step(1) [OF this step(3) step(4)] show ?case .
  qed
  with assms show ?thesis by (cases "roundRobinLoop env s") auto
qed


lemma switchType_round_robin:
  assumes acc: "publishSucceeds env"
    and plan: "testMessages s \<noteq> []"
    and tgt: "target s = Fin (of_int t)"
    and ch: "channel s = Some ch"
  shows "\<exists>k. switchType env ''round-robin'' s =
            Some (Returned,
                  s\<lparr>channel := Some (ch\<lparr>published := published ch @
                         concat (replicate k (map publicationOf (testMessages s)))\<rparr>),
                    totalMessagesSent := totalMessagesSent s + int (k * length (testMessages s))\<rparr>)
          \<and> t < totalMessagesSent s + int (k * length (testMessages s))
          \<and> (totalMessagesSent s \<le> t \<longrightarrow>
               totalMessagesSent s + int (k * length (testMessages s))
                 \<le> t + int (length (testMessages s)))"
  using roundRobinLoop_terminates [OF acc refl plan tgt ch]
  by (auto simp: switchType_def)

lemma switchType_random:
  assumes acc: "publishSucceeds env" and rnd: "randomInUnitInterval env"
    and small: "length (testMessages s) < 2 ^ 53"
    and plan: "testMessages s \<noteq> []"
    and tgt: "target s = Fin (of_int t)"
    and ch: "channel s = Some ch"
  shows "\<exists>ps. switchType env ''random'' s =
           Some (Returned,
                 s\<lparr>channel := Some (ch\<lparr>published := published ch @ ps\<rparr>),
                   totalMessagesSent := max (totalMessagesSent s) (t + 1),
                   randomNumber := None,
                   randomCalls := randomCalls s + length ps\<rparr>)
          \<and> length ps = nat (t + 1 - totalMessagesSent s)
          \<and> set ps \<subseteq> publicationOf ` set (testMessages s)"
proof -
  from randomLoop_terminates [OF acc rnd small refl plan tgt ch]
  obtain ps rn where res: "randomLoop env s =
           Some (Returned,
                 s\<lparr>channel := Some (ch\<lparr>published := published ch @ ps\<rparr>),
                   totalMessagesSent := max (totalMessagesSent s) (t + 1),
                   randomNumber := rn,
                   randomCalls := randomCalls s + length ps\<rparr>)"
    and ps: "length ps = nat (t + 1 - totalMessagesSent s)"
            "set ps \<subseteq> publicationOf ` set (testMessages s)"
    by blast
  have "switchType env ''random'' s =
           Some (Returned,
                 s\<lparr>channel := Some (ch\<lparr>published := published ch @ ps\<rparr>),
                   totalMessagesSent := max (totalMessagesSent s) (t + 1),
                   randomNumber := None,
                   randomCalls := randomCalls s + length ps\<rparr>)"
    by (simp add: switchType_def res afterLoop_def)
  with ps show ?thesis by blast
qed

lemma switchType_single_binding:
  assumes acc: "publishSucceeds env"
    and idx: "randomIndex env s = Fin (of_int i)" "0 \<le> i" "i < int (length (testMessages s))"
    and tgt: "target s = Fin (of_int t)"
    and ch: "channel s = Some ch"
  shows "switchType env ''single-binding'' s =
           Some (Returned,
                 s\<lparr>channel := Some (ch\<lparr>published := published ch @
                        replicate (nat (t + 1 - totalMessagesSent s))
                          (publicationOf (testMessages s ! nat i))\<rparr>),
                   totalMessagesSent := max (totalMessagesSent s) (t + 1),
                   randomNumber := None,
                   randomCalls := randomCalls s + 1\<rparr>)"
proof -
  define s0 where "s0 = s\<lparr>randomNumber := Some (Fin (of_int i)),
                          randomCalls := randomCalls s + 1\<rparr>"
  have "elementAt (testMessages s) (Fin (of_int i)) = Some (testMessages s ! nat i)"
    using idx(2) idx(3) by (rule elementAt_in_range)
  then have el: "elementAt (testMessages s0) (Fin (of_int i)) = Some (testMessages s ! nat i)"
    by (simp add: s0_def)
  have rn: "randomNumber s0 = Some (Fin (of_int i))" by (simp add: s0_def)
  have tgt0: "target s0 = Fin (of_int t)" using tgt by (simp add: s0_def)
  have ch0: "channel s0 = Some ch" using ch by (simp add: s0_def)
  note loop = singleBindingLoop_terminates [OF acc rn el tgt0 ch0]
  have "switchType env ''single-binding'' s =
          afterLoop (\<lambda>s1. s1\<lparr>randomNumber := None\<rparr>) (singleBindingLoop env s0)"
    by (simp add: switchType_def s0_def idx(1))
  then show ?thesis
    unfolding loop by (simp add: afterLoop_def s0_def)
qed

lemma run_entry:
  assumes "connectSucceeds env"
  obtains s1 where "ensureConnected env s = (Returned, s1)"
    and "channel (enterRun env s1) = Some (runChannel s)"
    and "testMessages (enterRun env s1) = testMessages s"
    and "target (enterRun env s1) = target s"
    and "totalMessagesSent (enterRun env s1) = totalMessagesSent s"
    and "snapShots (enterRun env s1) = snapShots s"
    and "randomCalls (enterRun env s1) = randomCalls s"
proof -
  from ensureConnected_succeeds [OF assms]
  obtain s1 where ec: "ensureConnected env s = (Returned, s1)" by blast
  from ensureConnected_Returned [OF ec] show ?thesis
    by (intro that [of s1]) (simp_all add: ec enterRun_fields)
qed

text \<open>
  Claim C1.  A \<open>round-robin\<close>, \<open>random\<close> or \<open>single-binding\<close> run that starts ready,
  with the counter at 0, on a plan that is not empty, towards a target that is a whole
  number \<open>t \<ge> 0\<close>, against a broker that refuses nothing, returns.  The count of the
  run is the one its snapshot records (\<open>runTest\<close> sets the counter to 0 after taking
  the snapshot): it is greater than \<open>t\<close>; for \<open>round-robin\<close> it is at most \<open>t\<close> plus
  the length of the plan, for \<open>random\<close> and \<open>single-binding\<close> it is \<open>t + 1\<close>.
  \<open>Math.random\<close> returns doubles in \<open>[0, 1)\<close>, and the plan is an array, which has
  fewer than \<open>2^32\<close> elements: the index drawn, the floor of a product of doubles, is
  within every plan of fewer than \<open>2^53\<close> elements.
\<close>

theorem count_bounded_run_overshoot:
  assumes ready: "readyToTest s"
    and con: "connectSucceeds env" and acc: "publishSucceeds env"
    and rnd: "randomInUnitInterval env"
    and plan: "testMessages s \<noteq> []" and small: "length (testMessages s) < 2 ^ 53"
    and zero: "totalMessagesSent s = 0"
    and tgt: "target s = Fin (of_int t)" and pos: "0 \<le> t"
    and ty: "ty = ''round-robin'' \<or> ty = ''random'' \<or> ty = ''single-binding''"
  shows "\<exists>s' sn. runTest env ty s = Some (Returned, s') \<and>
           snapShots s' = snapShots s @ [sn] \<and>
           t < snap_totalMessagesSent sn \<and>
           (ty = ''round-robin'' \<longrightarrow>
              snap_totalMessagesSent sn \<le> t + int (length (testMessages s))) \<and>
           (ty = ''random'' \<or> ty = ''single-binding'' \<longrightarrow> snap_totalMessagesSent sn = t + 1)"
proof -
  from run_entry [OF con, of s]
  obtain s1 where ec: "ensureConnected env s = (Returned, s1)"
    and ch: "channel (enterRun env s1) = Some (runChannel s)"
    and tm: "testMessages (enterRun env s1) = testMessages s"
    and tg: "target (enterRun env s1) = target s"
    and cnt: "totalMessagesSent (enterRun env s1) = totalMessagesSent s"
    and sn: "snapShots (enterRun env s1) = snapShots s"
    by blast
  define s2 where "s2 = enterRun env s1"
  have plan2: "testMessages s2 \<noteq> []" using plan tm by (simp add: s2_def)
  have small2: "length (testMessages s2) < 2 ^ 53" using small tm by (simp add: s2_def)
  have tgt2: "target s2 = Fin (of_int t)" using tgt tg by (simp add: s2_def)
  have ch2: "channel s2 = Some (runChannel s)" using ch by (simp add: s2_def)
  have zero2: "totalMessagesSent s2 = 0" using zero cnt by (simp add: s2_def)
  have "\<exists>s3. switchType env ty s2 = Some (Returned, s3) \<and> snapShots s3 = snapShots s \<and>
          t < totalMessagesSent s3 \<and>
          (ty = ''round-robin'' \<longrightarrow> totalMessagesSent s3 \<le> t + int (length (testMessages s))) \<and>
          (ty = ''random'' \<or> ty = ''single-binding'' \<longrightarrow> totalMessagesSent s3 = t + 1)"
  proof -
    consider (rr) "ty = ''round-robin''" | (random) "ty = ''random''"
      | (single) "ty = ''single-binding''"
      using ty by blast
    then show ?thesis
    proof cases
      case rr
      from switchType_round_robin [OF acc plan2 tgt2 ch2]
      show ?thesis using rr zero2 pos sn tm by (auto simp: s2_def)
    next
      case random
      from switchType_random [OF acc rnd small2 plan2 tgt2 ch2]
      show ?thesis using random zero2 pos sn by (auto simp: s2_def)
    next
      case single
      from randomIndex_in_range [OF rnd plan2 small2]
      obtain i where "randomIndex env s2 = Fin (of_int i)" "0 \<le> i"
        "i < int (length (testMessages s2))"
        by blast
      from switchType_single_binding [OF acc this tgt2 ch2]
      show ?thesis using single zero2 pos sn by (auto simp: s2_def)
    qed
  qed
  then obtain s3 where sw: "switchType env ty (enterRun env s1) = Some (Returned, s3)"
    and s3: "snapShots s3 = snapShots s" "t < totalMessagesSent s3"
      "ty = ''round-robin'' \<longrightarrow> totalMessagesSent s3 \<le> t + int (length (testMessages s))"
      "ty = ''random'' \<or> ty = ''single-binding'' \<longrightarrow> totalMessagesSent s3 = t + 1"
    unfolding s2_def by blast
  from runTest_completes [OF ready ec sw] s3 show ?thesis
    by (simp add: finishRun_fields)
qed

section \<open>The small topology, evaluated\<close>

lemma fl_half: "fl (1 / 2) = Fin (1 / 2)"
  by code_simp

lemma reliableEnv_ok:
  "connectSucceeds reliableEnv" "publishSucceeds reliableEnv" "randomInUnitInterval reliableEnv"
  by (simp_all add: connectSucceeds_def publishSucceeds_def randomInUnitInterval_def
        reliableEnv_def fl_half)

lemma demoSession_fields:
  "target demoSession = Fin 5" "totalMessagesSent demoSession = 0" "snapShots demoSession = []"
  "testMessages demoSession = []" "readyToTest demoSession = False"
  "bindings demoSession = [bindingK]" "rabbitAddress demoSession = ''amqp://localhost''"
  "message demoSession = [(''type'', ''Stress Test'')]" "connection demoSession = None"
  "channel demoSession = None" "randomCalls demoSession = 0" "clockCalls demoSession = 0"
  "exchanges demoSession = \<lparr>own = [''X'' \<mapsto> exchangeX], proto = None\<rparr>"
  by (simp_all add: demoSession_def constructor_def exchangeX_def emptyObject_def
        setProperty_def)

lemma connectToRabbitMQ_succeeds:
  assumes "connectSucceeds env"
  shows "connectToRabbitMQ env s =
           (Returned,
            s\<lparr>connection := Some \<lparr>peer = rabbitAddress s, connection_closed = False\<rparr>,
              channel := Some freshChannel\<rparr>)"
  using assms by (simp add: connectToRabbitMQ_def connectSucceeds_def Let_def freshChannel_def)

lemma connect_demoSession:
  assumes "connectSucceeds env"
  shows "connectToRabbitMQ env demoSession =
     (Returned,
      demoSession\<lparr>connection := Some \<lparr>peer = ''amqp://localhost'', connection_closed = False\<rparr>,
                  channel := Some freshChannel\<rparr>)"
  using assms
  by (simp add: connectToRabbitMQ_def connectSucceeds_def demoSession_fields freshChannel_def Let_def)

lemma exchangeTypeOf_X:
  "exchangeTypeOf \<lparr>own = [''X'' \<mapsto> exchangeX], proto = None\<rparr> ''X'' = Inr (Some ''topic'')"
  by (simp add: exchangeTypeOf_def getProperty_def exchangeX_def)

lemma prepTests_demoSession:
  assumes "connectSucceeds env"
  shows "prepTests env demoSession =
     (Returned,
      demoSession\<lparr>connection := Some \<lparr>peer = ''amqp://localhost'', connection_closed = False\<rparr>,
                  channel := Some freshChannel,
                  testMessages :=
                    [\<lparr>exchangeName = ''X'', exchangeType = Some ''topic'',
                      tm_rabbitAddress = ''amqp://localhost'', key = ''k'',
                      tm_message = [(''type'', ''Stress Test'')]\<rparr>],
                  readyToTest := True\<rparr>)"
  by (simp add: prepTests_def connect_demoSession [OF assms] demoSession_fields
        exchangeTypeOf_X bindingK_def)

lemma preparedSession_eq:
  "preparedSession =
     demoSession\<lparr>connection := Some \<lparr>peer = ''amqp://localhost'', connection_closed = False\<rparr>,
                 channel := Some freshChannel,
                 testMessages :=
                   [\<lparr>exchangeName = ''X'', exchangeType = Some ''topic'',
                     tm_rabbitAddress = ''amqp://localhost'', key = ''k'',
                     tm_message = [(''type'', ''Stress Test'')]\<rparr>],
                 readyToTest := True\<rparr>"
  by (simp add: preparedSession_def prepTests_demoSession [OF reliableEnv_ok(1)])

lemma preparedSession_fields:
  "readyToTest preparedSession" "totalMessagesSent preparedSession = 0"
  "target preparedSession = Fin (of_int 5)" "snapShots preparedSession = []"
  "testMessages preparedSession =
     [\<lparr>exchangeName = ''X'', exchangeType = Some ''topic'',
       tm_rabbitAddress = ''amqp://localhost'', key = ''k'',
       tm_message = [(''type'', ''Stress Test'')]\<rparr>]"
  "channel preparedSession = Some freshChannel"
  "connection preparedSession = Some \<lparr>peer = ''amqp://localhost'', connection_closed = False\<rparr>"
  "randomCalls preparedSession = 0" "clockCalls preparedSession = 0"
  by (simp_all add: preparedSession_def prepTests_demoSession [OF reliableEnv_ok(1)]
        demoSession_fields)

theorem count_bounded_run_overshoot_witness:
  "readyToTest preparedSession \<and> testMessages preparedSession \<noteq> [] \<and>
   length (testMessages preparedSession) < 2 ^ 53 \<and>
   totalMessagesSent preparedSession = 0 \<and> target preparedSession = Fin (of_int 5) \<and>
   (\<exists>s' sn. runTest reliableEnv ''random'' preparedSession = Some (Returned, s') \<and>
      snapShots s' = snapShots preparedSession @ [sn] \<and> snap_totalMessagesSent sn = 6)"
  using count_bounded_run_overshoot [of preparedSession reliableEnv 5 "''random''"]
  by (auto simp: preparedSession_fields reliableEnv_ok)








text \<open>
  Claim C10.  With the counter at or below a whole-number target and a broker that
  refuses nothing, \<open>runTest('round-robin')\<close> ends exactly when the plan is not empty:
  on a plan that is not empty it returns, on an empty plan the loop never leaves and
  \<open>runTest\<close> has no result at all.
\<close>

theorem round_robin_terminates_iff_plan_nonempty:
  assumes ready: "readyToTest s"
    and con: "connectSucceeds env" and acc: "publishSucceeds env"
    and tgt: "target s = Fin (of_int t)"
    and below: "totalMessagesSent s \<le> t"
  shows "((\<exists>r. runTest env ''round-robin'' s = Some r) \<longleftrightarrow> testMessages s \<noteq> []) \<and>
         (testMessages s \<noteq> [] \<longrightarrow> (\<exists>s'. runTest env ''round-robin'' s = Some (Returned, s'))) \<and>
         (testMessages s = [] \<longrightarrow> runTest env ''round-robin'' s = None)"
proof -
  from run_entry [OF con, of s]
  obtain s1 where ec: "ensureConnected env s = (Returned, s1)"
    and ch: "channel (enterRun env s1) = Some (runChannel s)"
    and tm: "testMessages (enterRun env s1) = testMessages s"
    and tg: "target (enterRun env s1) = target s"
    and cnt: "totalMessagesSent (enterRun env s1) = totalMessagesSent s"
    by blast
  have run: "runTest env ''round-robin'' s =
      afterLoop (finishRun env (Date_now env (clockCalls s1)) ''round-robin'')
        (roundRobinLoop env (enterRun env s1))"
    using ready ec by (simp add: runTest_unfold switchType_def)
  show ?thesis
  proof (cases "testMessages s = []")
    case True
    have "jsLe (totalMessagesSent (enterRun env s1)) (target (enterRun env s1))"
      using below by (simp add: cnt tg tgt)
    with True tm have "roundRobinLoop env (enterRun env s1) = None"
      by (intro roundRobinLoop_empty_plan) simp_all
    then show ?thesis using True by (simp add: run afterLoop_def)
  next
    case False
    then have plan: "testMessages (enterRun env s1) \<noteq> []" by (simp add: tm)
    have tgt2: "target (enterRun env s1) = Fin (of_int t)" by (simp add: tg tgt)
    from roundRobinLoop_terminates [OF acc refl plan tgt2 ch]
    obtain s3 where "roundRobinLoop env (enterRun env s1) = Some (Returned, s3)" by blast
    then show ?thesis using False by (simp add: run afterLoop_def)
  qed
qed

theorem round_robin_terminates_iff_plan_nonempty_witness:
  "readyToTest preparedSession \<and> totalMessagesSent preparedSession \<le> 5 \<and>
   (\<exists>s'. runTest reliableEnv ''round-robin'' preparedSession = Some (Returned, s')) \<and>
   readyToTest (preparedSession\<lparr>testMessages := []\<rparr>) \<and>
   runTest reliableEnv ''round-robin'' (preparedSession\<lparr>testMessages := []\<rparr>) = None"
proof -
  define e where "e = preparedSession\<lparr>testMessages := []\<rparr>"
  have e: "readyToTest e" "target e = Fin (of_int 5)" "totalMessagesSent e \<le> 5"
    "testMessages e = []"
    by (simp_all add: e_def preparedSession_fields)
  have p: "readyToTest preparedSession" "target preparedSession = Fin (of_int 5)"
    "totalMessagesSent preparedSession \<le> 5" "testMessages preparedSession \<noteq> []"
    by (simp_all add: preparedSession_fields)
  from round_robin_terminates_iff_plan_nonempty
         [OF p(1) reliableEnv_ok(1) reliableEnv_ok(2) p(2) p(3)] p(4)
  have a: "\<exists>s'. runTest reliableEnv ''round-robin'' preparedSession = Some (Returned, s')"
    by blast
  from round_robin_terminates_iff_plan_nonempty
         [OF e(1) reliableEnv_ok(1) reliableEnv_ok(2) e(2) e(3)] e(4)
  have b: "runTest reliableEnv ''round-robin'' e = None" by blast
  show ?thesis using a b p e unfolding e_def by blast
qed

lemma concat_replicate_single: "concat (replicate k [x]) = replicate k x"
  by (induction k) simp_all

lemma messageSuccessRate_6_5: "messageSuccessRate 6 (Fin 5) = Fin 120"
  by code_simp

lemma messageSuccessRate_4_3: "messageSuccessRate 4 (Fin 3) = Fin 133"
  by code_simp

text \<open>
  The rate is the floor of a product of doubles, which is not always the floor of the
  exact quotient: 115 messages against a target of 100 give 114, since \<open>1.15 * 100\<close>
  is \<open>114.99999999999999\<close>.  It is not capped: 250 against 100 give 250.
\<close>

lemma messageSuccessRate_rounds:
  "messageSuccessRate 115 (Fin 100) = Fin 114 \<and> messageSuccessRate 250 (Fin 100) = Fin 250"
  by code_simp

lemma prepTests_target:
  assumes "connectSucceeds env"
  shows "prepTests env (demoSession\<lparr>target := tg\<rparr>) =
     (Returned,
      demoSession\<lparr>target := tg,
                  connection := Some \<lparr>peer = ''amqp://localhost'', connection_closed = False\<rparr>,
                  channel := Some freshChannel,
                  testMessages :=
                    [\<lparr>exchangeName = ''X'', exchangeType = Some ''topic'',
                      tm_rabbitAddress = ''amqp://localhost'', key = ''k'',
                      tm_message = [(''type'', ''Stress Test'')]\<rparr>],
                  readyToTest := True\<rparr>)"
  by (simp add: prepTests_def connectToRabbitMQ_succeeds [OF assms] demoSession_fields
        exchangeTypeOf_X bindingK_def)

lemma one_binding_round_robin:
  assumes con: "connectSucceeds env" and acc: "publishSucceeds env" and pos: "0 \<le> t"
  shows "\<exists>s1 s2 ch sn.
           prepTests env (demoSession\<lparr>target := Fin (of_int t)\<rparr>) = (Returned, s1) \<and>
           length (testMessages s1) = 1 \<and>
           runTest env ''round-robin'' s1 = Some (Returned, s2) \<and>
           channel s2 = Some ch \<and>
           published ch = replicate (nat (t + 1))
                            \<lparr>pub_exchange = ''X'', pub_key = ''k'',
                             pub_content = [(''type'', ''Stress Test'')]\<rparr> \<and>
           snapShots s2 = [sn] \<and>
           snap_totalMessagesSent sn = t + 1 \<and>
           snap_target sn = Fin (of_int t) \<and>
           snap_messageSuccessRate sn = messageSuccessRate (t + 1) (Fin (of_int t))"
proof -
  define msg where "msg = \<lparr>exchangeName = ''X'', exchangeType = Some ''topic'',
                      tm_rabbitAddress = ''amqp://localhost'', key = ''k'',
                      tm_message = [(''type'', ''Stress Test'')]\<rparr>"
  define s1 where "s1 = demoSession\<lparr>target := Fin (of_int t),
                  connection :=
                     Some \<lparr>peer = ''amqp://localhost'', connection_closed = False\<rparr>,
                  channel := Some freshChannel,
                  testMessages := [msg],
                  readyToTest := True\<rparr>"
  have prep: "prepTests env (demoSession\<lparr>target := Fin (of_int t)\<rparr>) = (Returned, s1)"
    by (simp add: prepTests_target [OF con] s1_def msg_def)
  have ready: "readyToTest s1" by (simp add: s1_def)
  have ec: "ensureConnected env s1 = (Returned, s1)"
    by (simp add: ensureConnected_def s1_def)
  define s2 where "s2 = enterRun env s1"
  have plan: "testMessages s2 \<noteq> []" and tm: "testMessages s2 = [msg]"
    by (simp_all add: s2_def enterRun_fields s1_def)
  have tgt: "target s2 = Fin (of_int t)"
    by (simp add: s2_def enterRun_fields s1_def)
  have ch: "channel s2 = Some freshChannel"
    by (simp add: s2_def enterRun_fields s1_def)
  have zero: "totalMessagesSent s2 = 0"
    by (simp add: s2_def enterRun_fields s1_def demoSession_fields)
  from switchType_round_robin [OF acc plan tgt ch]
  obtain k where sw: "switchType env ''round-robin'' s2 =
            Some (Returned,
                  s2\<lparr>channel := Some (freshChannel\<lparr>published := published freshChannel @
                         concat (replicate k (map publicationOf (testMessages s2)))\<rparr>),
                    totalMessagesSent := totalMessagesSent s2 + int (k * length (testMessages s2))\<rparr>)"
    and k: "t < totalMessagesSent s2 + int (k * length (testMessages s2))"
      "totalMessagesSent s2 \<le> t \<longrightarrow>
         totalMessagesSent s2 + int (k * length (testMessages s2))
           \<le> t + int (length (testMessages s2))"
    by blast
  have kt: "int k = t + 1" using k pos by (simp add: zero tm)
  then have k6: "k = nat (t + 1)" by simp
  define s3 where "s3 = s2\<lparr>channel := Some (freshChannel\<lparr>published :=
                             replicate (nat (t + 1)) (publicationOf msg)\<rparr>),
                           totalMessagesSent := t + 1\<rparr>"
  have "published freshChannel @ concat (replicate k (map publicationOf (testMessages s2))) =
          replicate (nat (t + 1)) (publicationOf msg)"
    by (simp add: tm concat_replicate_single freshChannel_def k6)
  moreover have "totalMessagesSent s2 + int (k * length (testMessages s2)) = t + 1"
    using kt by (simp add: zero tm)
  ultimately have sw': "switchType env ''round-robin'' (enterRun env s1) = Some (Returned, s3)"
    using sw unfolding s3_def s2_def [symmetric] by simp
  from runTest_completes [OF ready ec sw']
  have run: "runTest env ''round-robin'' s1 =
      Some (Returned, finishRun env (Date_now env (clockCalls s1)) ''round-robin'' s3)" .
  have snaps: "snapShots s3 = []" "totalMessagesSent s3 = t + 1" "target s3 = Fin (of_int t)"
    by (simp_all add: s3_def s2_def enterRun_def s1_def demoSession_fields)
  have chan: "channel s3 =
      Some (freshChannel\<lparr>published := replicate (nat (t + 1)) (publicationOf msg)\<rparr>)"
    by (simp add: s3_def)
  have pub: "publicationOf msg = \<lparr>pub_exchange = ''X'', pub_key = ''k'',
                                        pub_content = [(''type'', ''Stress Test'')]\<rparr>"
    by (simp add: publicationOf_def msg_def)
  define s4 where "s4 = finishRun env (Date_now env (clockCalls s1)) ''round-robin'' s3"
  have len: "length (testMessages s1) = 1" by (simp add: s1_def)
  define ch4 where "ch4 = freshChannel\<lparr>published := replicate (nat (t + 1)) (publicationOf msg),
                                      channel_closed := True\<rparr>"
  have c4: "channel s4 = Some ch4"
    by (simp add: s4_def finishRun_fields chan ch4_def)
  obtain sn where sn: "snapShots s4 = [sn]" "snap_totalMessagesSent sn = t + 1"
    "snap_target sn = Fin (of_int t)"
    "snap_messageSuccessRate sn = messageSuccessRate (t + 1) (Fin (of_int t))"
    by (simp add: s4_def finishRun_fields snaps)
  have p4: "published ch4 =
        replicate (nat (t + 1)) \<lparr>pub_exchange = ''X'', pub_key = ''k'',
                     pub_content = [(''type'', ''Stress Test'')]\<rparr>"
    by (simp add: ch4_def pub)
  show ?thesis
  proof (intro exI conjI)
    show "prepTests env (demoSession\<lparr>target := Fin (of_int t)\<rparr>) = (Returned, s1)" by (fact prep)
    show "length (testMessages s1) = 1" by (fact len)
    show "runTest env ''round-robin'' s1 = Some (Returned, s4)"
      using run by (simp add: s4_def)
    show "channel s4 = Some ch4" by (fact c4)
    show "published ch4 =
        replicate (nat (t + 1)) \<lparr>pub_exchange = ''X'', pub_key = ''k'',
                     pub_content = [(''type'', ''Stress Test'')]\<rparr>" by (fact p4)
    show "snapShots s4 = [sn]" by (fact sn(1))
    show "snap_totalMessagesSent sn = t + 1" by (fact sn(2))
    show "snap_target sn = Fin (of_int t)" by (fact sn(3))
    show "snap_messageSuccessRate sn = messageSuccessRate (t + 1) (Fin (of_int t))" by (fact sn(4))
  qed
qed

lemma completed_run_rate:
  assumes "readyToTest s" and "runTest env ty s = Some (Returned, s')"
  shows "\<exists>sn. snapShots s' = snapShots s @ [sn] \<and>
           snap_messageSuccessRate sn =
             messageSuccessRate (snap_totalMessagesSent sn) (snap_target sn)"
proof -
  from runTest_result [OF assms(2) assms(1)]
  obtain s1 s3 where ec: "ensureConnected env s = (Returned, s1)"
    and sw: "switchType env ty (enterRun env s1) = Some (Returned, s3)"
    and s': "s' = finishRun env (Date_now env (clockCalls s1)) ty s3"
    by auto
  from switchType_runStep [OF sw] ensureConnected_Returned [OF ec]
  have "snapShots s3 = snapShots s" by (simp add: runStep_def enterRun_fields)
  then show ?thesis by (simp add: s' finishRun_fields)
qed

text \<open>
  Claim C8, as the code has it.  One exchange \<open>X\<close> of type topic, one binding of
  \<open>X\<close> with routing key \<open>k\<close>, target 5: \<open>prepTests\<close> yields a plan of length 1; the
  \<open>round-robin\<close> run publishes to \<open>X\<close> with key \<open>k\<close> six times and nothing else;
  its snapshot records 6 messages against the target 5 and the success rate 120.  The
  rate that a completed run records is \<open>Math.floor((totalMessagesSent / target) * 100)\<close>
  in double arithmetic.  It is a whole number: with the target updated to 3, the same
  topology records 4 messages and the rate 133.  It is not capped at 100: 250 messages
  against the target 100 give 250.  It is not integer floor division: 115 messages
  against the target 100 give 114.
\<close>

theorem one_binding_round_robin_scenario:
  assumes con: "connectSucceeds env" and acc: "publishSucceeds env"
  shows "(\<exists>s1 s2 ch sn.
           prepTests env demoSession = (Returned, s1) \<and>
           length (testMessages s1) = 1 \<and>
           runTest env ''round-robin'' s1 = Some (Returned, s2) \<and>
           channel s2 = Some ch \<and>
           published ch = replicate 6 \<lparr>pub_exchange = ''X'', pub_key = ''k'',
                                        pub_content = [(''type'', ''Stress Test'')]\<rparr> \<and>
           snapShots s2 = [sn] \<and>
           snap_totalMessagesSent sn = 6 \<and>
           snap_target sn = Fin 5 \<and>
           snap_messageSuccessRate sn = Fin 120) \<and>
         (\<exists>s1 s2 sn.
           prepTests env targetThreeSession = (Returned, s1) \<and>
           length (testMessages s1) = 1 \<and>
           runTest env ''round-robin'' s1 = Some (Returned, s2) \<and>
           snapShots s2 = [sn] \<and>
           snap_totalMessagesSent sn = 4 \<and>
           snap_target sn = Fin 3 \<and>
           snap_messageSuccessRate sn = Fin 133) \<and>
         (readyToTest s \<and> runTest env ty s = Some (Returned, s') \<longrightarrow>
            (\<exists>sn. snapShots s' = snapShots s @ [sn] \<and>
               snap_messageSuccessRate sn =
                 Math_floor (jsMul (jsDiv (Fin (of_int (snap_totalMessagesSent sn)))
                                          (snap_target sn)) (Fin 100)))) \<and>
         Math_floor (jsMul (jsDiv (Fin 250) (Fin 100)) (Fin 100)) = Fin 250 \<and>
         Math_floor (jsMul (jsDiv (Fin 115) (Fin 100)) (Fin 100)) = Fin 114"
proof (intro conjI impI)
  have five: "demoSession\<lparr>target := Fin (of_int 5)\<rparr> = demoSession"
    by (simp add: demoSession_def constructor_def)
  from one_binding_round_robin [OF con acc, of 5]
  show "\<exists>s1 s2 ch sn.
           prepTests env demoSession = (Returned, s1) \<and>
           length (testMessages s1) = 1 \<and>
           runTest env ''round-robin'' s1 = Some (Returned, s2) \<and>
           channel s2 = Some ch \<and>
           published ch = replicate 6 \<lparr>pub_exchange = ''X'', pub_key = ''k'',
                                        pub_content = [(''type'', ''Stress Test'')]\<rparr> \<and>
           snapShots s2 = [sn] \<and>
           snap_totalMessagesSent sn = 6 \<and>
           snap_target sn = Fin 5 \<and>
           snap_messageSuccessRate sn = Fin 120"
    unfolding five by (simp add: messageSuccessRate_6_5)
next
  have three: "demoSession\<lparr>target := Fin (of_int 3)\<rparr> = targetThreeSession"
    by (simp add: targetThreeSession_def updateTarget_def)
  from one_binding_round_robin [OF con acc, of 3]
  obtain s1 s2 sn where "prepTests env targetThreeSession = (Returned, s1)"
    "length (testMessages s1) = 1"
    "runTest env ''round-robin'' s1 = Some (Returned, s2)"
    "snapShots s2 = [sn]" "snap_totalMessagesSent sn = 4" "snap_target sn = Fin 3"
    "snap_messageSuccessRate sn = Fin 133"
    unfolding three by (auto simp: messageSuccessRate_4_3)
  then show "\<exists>s1 s2 sn.
           prepTests env targetThreeSession = (Returned, s1) \<and>
           length (testMessages s1) = 1 \<and>
           runTest env ''round-robin'' s1 = Some (Returned, s2) \<and>
           snapShots s2 = [sn] \<and>
           snap_totalMessagesSent sn = 4 \<and>
           snap_target sn = Fin 3 \<and>
           snap_messageSuccessRate sn = Fin 133"
    by (intro exI conjI)
next
  assume "readyToTest s \<and> runTest env ty s = Some (Returned, s')"
  then have "readyToTest s" "runTest env ty s = Some (Returned, s')" by simp_all
  from completed_run_rate [OF this]
  show "\<exists>sn. snapShots s' = snapShots s @ [sn] \<and>
               snap_messageSuccessRate sn =
                 Math_floor (jsMul (jsDiv (Fin (of_int (snap_totalMessagesSent sn)))
                                          (snap_target sn)) (Fin 100))"
    by (simp add: messageSuccessRate_def)
next
  show "Math_floor (jsMul (jsDiv (Fin 250) (Fin 100)) (Fin 100)) = Fin 250"
    using messageSuccessRate_rounds by (simp add: messageSuccessRate_def)
next
  show "Math_floor (jsMul (jsDiv (Fin 115) (Fin 100)) (Fin 100)) = Fin 114"
    using messageSuccessRate_rounds by (simp add: messageSuccessRate_def)
qed

theorem one_binding_round_robin_scenario_witness:
  "(\<exists>s2 sn.
     prepTests reliableEnv demoSession = (Returned, preparedSession) \<and>
     length (testMessages preparedSession) = 1 \<and>
     readyToTest preparedSession \<and>
     runTest reliableEnv ''round-robin'' preparedSession = Some (Returned, s2) \<and>
     snapShots s2 = snapShots preparedSession @ [sn] \<and> snap_totalMessagesSent sn = 6 \<and>
     snap_messageSuccessRate sn = Fin 120 \<and>
     snap_messageSuccessRate sn =
       Math_floor (jsMul (jsDiv (Fin (of_int (snap_totalMessagesSent sn))) (snap_target sn))
                         (Fin 100))) \<and>
   (\<exists>s1 s2 sn.
     prepTests reliableEnv targetThreeSession = (Returned, s1) \<and>
     runTest reliableEnv ''round-robin'' s1 = Some (Returned, s2) \<and>
     snapShots s2 = [sn] \<and> snap_totalMessagesSent sn = 4 \<and>
     snap_messageSuccessRate sn = Fin 133)"
proof -
  note th = one_binding_round_robin_scenario [OF reliableEnv_ok(1) reliableEnv_ok(2)]
  from th [THEN conjunct1] obtain s1 s2 sn where
    r: "prepTests reliableEnv demoSession = (Returned, s1)"
    "length (testMessages s1) = 1"
    "runTest reliableEnv ''round-robin'' s1 = Some (Returned, s2)"
    "snapShots s2 = [sn]" "snap_totalMessagesSent sn = 6"
    "snap_messageSuccessRate sn = Fin 120"
    by (elim exE conjE)
  have s1: "s1 = preparedSession" using r(1) by (simp add: preparedSession_def)
  have ready: "readyToTest preparedSession" by (simp add: preparedSession_fields)
  from one_binding_round_robin_scenario
         [OF reliableEnv_ok(1) reliableEnv_ok(2),
          where s = preparedSession and ty = "''round-robin''" and s' = s2]
    ready r(3)
  have "\<exists>sn. snapShots s2 = snapShots preparedSession @ [sn] \<and>
          snap_messageSuccessRate sn =
            Math_floor (jsMul (jsDiv (Fin (of_int (snap_totalMessagesSent sn))) (snap_target sn))
                              (Fin 100))"
    by (simp add: s1)
  then have "snapShots s2 = snapShots preparedSession @ [sn] \<and>
          snap_messageSuccessRate sn =
            Math_floor (jsMul (jsDiv (Fin (of_int (snap_totalMessagesSent sn))) (snap_target sn))
                              (Fin 100))"
    using r(4) by (auto simp: preparedSession_fields)
  with r ready have a: "\<exists>s2 sn.
     prepTests reliableEnv demoSession = (Returned, preparedSession) \<and>
     length (testMessages preparedSession) = 1 \<and>
     readyToTest preparedSession \<and>
     runTest reliableEnv ''round-robin'' preparedSession = Some (Returned, s2) \<and>
     snapShots s2 = snapShots preparedSession @ [sn] \<and> snap_totalMessagesSent sn = 6 \<and>
     snap_messageSuccessRate sn = Fin 120 \<and>
     snap_messageSuccessRate sn =
       Math_floor (jsMul (jsDiv (Fin (of_int (snap_totalMessagesSent sn))) (snap_target sn))
                         (Fin 100))"
    unfolding s1 by (intro exI [of _ s2] exI [of _ sn]) simp
  from th [THEN conjunct2, THEN conjunct1] obtain t1 t2 tn where
    "prepTests reliableEnv targetThreeSession = (Returned, t1)"
    "runTest reliableEnv ''round-robin'' t1 = Some (Returned, t2)"
    "snapShots t2 = [tn]" "snap_totalMessagesSent tn = 4"
    "snap_messageSuccessRate tn = Fin 133"
    by (elim exE conjE)
  then have b: "\<exists>s1 s2 sn.
     prepTests reliableEnv targetThreeSession = (Returned, s1) \<and>
     runTest reliableEnv ''round-robin'' s1 = Some (Returned, s2) \<and>
     snapShots s2 = [sn] \<and> snap_totalMessagesSent sn = 4 \<and>
     snap_messageSuccessRate sn = Fin 133"
    by (intro exI conjI)
  from a b show ?thesis by (rule conjI)
qed

text \<open>
  The claim as the specification words it fails: the rate is not integer floor
  division.  On a topology of 23 bindings with the target 100, the \<open>round-robin\<close>
  run records 115 messages and the rate 114, where integer floor division gives 115.
\<close>

theorem success_rate_not_integer_division_counterexample:
  "recordedCounts (runTest reliableEnv ''round-robin'' (snd (prepTests reliableEnv wideSession)))
     = [115] \<and>
   recordedRates (runTest reliableEnv ''round-robin'' (snd (prepTests reliableEnv wideSession)))
     = [Fin 114] \<and>
   integerFloorRate 115 100 = Fin 115"
  by code_simp

section \<open>Runs that a failing publish aborts\<close>

lemma forOfTestMessages_append:
  assumes "forOfTestMessages env pre x = (Returned, x1)"
  shows "forOfTestMessages env (pre @ rest) x = forOfTestMessages env rest x1"
  using assms
proof (induction pre arbitrary: x)
  case Nil
  then show ?case by simp
next
  case (Cons m pre)
  obtain o1 y where p: "publishMessage env (exchangeName m) (key m) (tm_message m) x = (o1, y)"
    by (cases "publishMessage env (exchangeName m) (key m) (tm_message m) x")
  show ?case
  proof (cases o1)
    case Returned
    with Cons.prems p have "forOfTestMessages env pre y = (Returned, x1)" by simp
    from Cons.IH [OF this] Returned p show ?thesis by simp
  next
    case (Threw e)
    with Cons.prems p show ?thesis by simp
  qed
qed

lemma refused_publish_ends_pass:
  assumes "forOfTestMessages env pre x = (Returned, x1)" and "channel x1 = Some ch"
    and "\<not> channel_publish env ch (publicationOf msg)"
  shows "forOfTestMessages env (pre @ msg # post) x = (Threw PublishError, x1)"
  by (simp add: forOfTestMessages_append [OF assms(1)]
        publishMessage_rejected [OF assms(2) assms(3)])

lemma refused_publish_at_index:
  assumes "randomNumber x = Some i" and "elementAt (testMessages x) i = Some msg"
    and "channel x = Some ch" and "\<not> channel_publish env ch (publicationOf msg)"
  shows "publishRandomNumber env x = (Threw PublishError, x)"
  by (simp add: publishRandomNumber_def assms(1) assms(2)
        publishMessage_rejected [OF assms(3) assms(4)])

lemma loop_iteration:
  assumes "iteration env ty s s1"
  shows "(ty = ''round-robin'' \<longrightarrow> roundRobinLoop env s = roundRobinLoop env s1) \<and>
         (ty = ''random'' \<longrightarrow> randomLoop env s = randomLoop env s1) \<and>
         (ty = ''extended-duration'' \<longrightarrow>
            extendedDurationLoop env s = extendedDurationLoop env s1) \<and>
         (ty = ''single-binding'' \<longrightarrow> singleBindingLoop env s = singleBindingLoop env s1)"
proof (intro conjI impI)
  assume "ty = ''round-robin''"
  with assms show "roundRobinLoop env s = roundRobinLoop env s1"
    by (subst roundRobinLoop.simps) (simp add: iteration_def loopCondition_def loopBody_def)
next
  assume "ty = ''random''"
  with assms show "randomLoop env s = randomLoop env s1"
    by (subst randomLoop.simps) (simp add: iteration_def loopCondition_def loopBody_def)
next
  assume "ty = ''extended-duration''"
  with assms show "extendedDurationLoop env s = extendedDurationLoop env s1"
    by (subst extendedDurationLoop.simps)
       (simp add: iteration_def loopCondition_def loopBody_def)
next
  assume "ty = ''single-binding''"
  with assms show "singleBindingLoop env s = singleBindingLoop env s1"
    by (subst singleBindingLoop.simps) (simp add: iteration_def loopCondition_def loopBody_def)
qed

lemma loop_throw:
  assumes "loopCondition env ty s" and "loopBody env ty s = (Threw e, s')"
  shows "(ty = ''round-robin'' \<longrightarrow> roundRobinLoop env s = Some (Threw e, s')) \<and>
         (ty = ''random'' \<longrightarrow> randomLoop env s = Some (Threw e, s')) \<and>
         (ty = ''extended-duration'' \<longrightarrow> extendedDurationLoop env s = Some (Threw e, s')) \<and>
         (ty = ''single-binding'' \<longrightarrow> singleBindingLoop env s = Some (Threw e, s'))"
proof (intro conjI impI)
  assume "ty = ''round-robin''"
  with assms show "roundRobinLoop env s = Some (Threw e, s')"
    by (subst roundRobinLoop.simps) (simp add: loopCondition_def loopBody_def)
next
  assume "ty = ''random''"
  with assms show "randomLoop env s = Some (Threw e, s')"
    by (subst randomLoop.simps) (simp add: loopCondition_def loopBody_def)
next
  assume "ty = ''extended-duration''"
  with assms show "extendedDurationLoop env s = Some (Threw e, s')"
    by (subst extendedDurationLoop.simps) (simp add: loopCondition_def loopBody_def)
next
  assume "ty = ''single-binding''"
  with assms show "singleBindingLoop env s = Some (Threw e, s')"
    by (subst singleBindingLoop.simps) (simp add: loopCondition_def loopBody_def)
qed

lemma loop_aborts:
  assumes chain: "(iteration env ty)\<^sup>*\<^sup>* x0 x"
    and go: "loopCondition env ty x" and body: "loopBody env ty x = (Threw e, s')"
  shows "(ty = ''round-robin'' \<longrightarrow> roundRobinLoop env x0 = Some (Threw e, s')) \<and>
         (ty = ''random'' \<longrightarrow> randomLoop env x0 = Some (Threw e, s')) \<and>
         (ty = ''extended-duration'' \<longrightarrow> extendedDurationLoop env x0 = Some (Threw e, s')) \<and>
         (ty = ''single-binding'' \<longrightarrow> singleBindingLoop env x0 = Some (Threw e, s'))"
  using chain
proof (induction rule: converse_rtranclp_induct)
  case base
  show ?case by (rule loop_throw [OF go body])
next
  case (step y z)
  from loop_iteration [OF step.hyps(1)] step.IH show ?case by simp
qed

lemma switchType_aborts:
  assumes ty: "ty = ''round-robin'' \<or> ty = ''random'' \<or> ty = ''extended-duration'' \<or>
               ty = ''single-binding''"
    and chain: "(iteration env ty)\<^sup>*\<^sup>* (loopEntry env ty s) x"
    and go: "loopCondition env ty x" and body: "loopBody env ty x = (Threw e, s')"
  shows "switchType env ty s = Some (Threw e, s')"
  using loop_aborts [OF chain go body] ty
  by (auto simp: switchType_def loopEntry_def afterLoop_def)

lemma runTest_aborts:
  assumes ready: "readyToTest s" and ec: "ensureConnected env s = (Returned, s1)"
    and ty: "ty = ''round-robin'' \<or> ty = ''random'' \<or> ty = ''extended-duration'' \<or>
             ty = ''single-binding''"
    and chain: "(iteration env ty)\<^sup>*\<^sup>* (loopEntry env ty (enterRun env s1)) x"
    and go: "loopCondition env ty x" and body: "loopBody env ty x = (Threw e, s')"
  shows "runTest env ty s = Some (Threw e, s')"
  using ready ec switchType_aborts [OF ty chain go body]
  by (simp add: runTest_unfold afterLoop_def)

lemma aborted_run_state:
  assumes "runTest env ty s = Some (Threw PublishError, s')"
  shows "readyToTest s \<and> snapShots s' = snapShots s \<and>
         (\<exists>ps msg.
            channel s' = Some ((runChannel s)\<lparr>published := published (runChannel s) @ ps\<rparr>) \<and>
            totalMessagesSent s' = totalMessagesSent s + int (length ps) \<and>
            msg \<in> set (testMessages s) \<and>
            \<not> channel_publish env ((runChannel s)\<lparr>published := published (runChannel s) @ ps\<rparr>)
                  (publicationOf msg))"
proof -
  have ready: "readyToTest s"
    using assms by (cases "readyToTest s") (simp_all add: runTest_unfold)
  from runTest_result [OF assms ready]
  have "\<exists>s1. ensureConnected env s = (Returned, s1) \<and>
          switchType env ty (enterRun env s1) = Some (Threw PublishError, s')"
    using ensureConnected_Threw [of env s PublishError s'] by auto
  then obtain s1 where ec: "ensureConnected env s = (Returned, s1)"
    and sw: "switchType env ty (enterRun env s1) = Some (Threw PublishError, s')"
    by blast
  note c = ensureConnected_Returned [OF ec]
  from switchType_runStep [OF sw]
  have st: "runStep env (enterRun env s1) (Threw PublishError) s'" .
  have ch: "channel (enterRun env s1) = Some (runChannel s)"
    using c by (simp add: enterRun_fields)
  from st ch obtain ps where ps:
    "channel s' = Some ((runChannel s)\<lparr>published := published (runChannel s) @ ps\<rparr>)"
    "totalMessagesSent s' = totalMessagesSent (enterRun env s1) + int (length ps)"
    by (auto simp: runStep_def)
  from st obtain ch' msg where rej: "channel s' = Some ch'"
    "msg \<in> set (testMessages (enterRun env s1))"
    "\<not> channel_publish env ch' (publicationOf msg)"
    by (auto simp: runStep_def)
  have snaps: "snapShots s' = snapShots s"
    using st c by (simp add: runStep_def enterRun_fields)
  have "channel s' = Some ((runChannel s)\<lparr>published := published (runChannel s) @ ps\<rparr>) \<and>
        totalMessagesSent s' = totalMessagesSent s + int (length ps) \<and>
        msg \<in> set (testMessages s) \<and>
        \<not> channel_publish env ((runChannel s)\<lparr>published := published (runChannel s) @ ps\<rparr>)
              (publicationOf msg)"
    using ps rej c by (simp add: enterRun_fields)
  then show ?thesis using ready snaps by blast
qed

text \<open>
  Claim C7.  A refused publish aborts the run, and the caller of \<open>runTest\<close> gets the
  error, for every strategy and every broker.  A pass over the plan that reaches a
  publication the broker refuses throws the publish error in the very state the
  refusal found, so that the rest of the plan is not published and the counter counts
  the publications before it; the same holds for the publication at the index drawn.
  A run whose loop, after any number of iterations that returned, comes to an
  iteration whose body throws, ends by throwing that error, in the state of the throw.
  And whenever \<open>runTest\<close> ends by throwing the publish error, no snapshot has been
  added, the counter is the start count plus the number of publications the channel
  took during the run, and the channel is in the very state in which the broker refuses
  the publication of a plan element, so that nothing was published after the refusal.
\<close>

theorem publish_failure_aborts_run:
  "(forOfTestMessages env pre x = (Returned, x1) \<and> channel x1 = Some ch \<and>
    \<not> channel_publish env ch (publicationOf msg) \<longrightarrow>
      forOfTestMessages env (pre @ msg # post) x = (Threw PublishError, x1)) \<and>
   (randomNumber z = Some i \<and> elementAt (testMessages z) i = Some m \<and> channel z = Some c \<and>
    \<not> channel_publish env c (publicationOf m) \<longrightarrow>
      publishRandomNumber env z = (Threw PublishError, z)) \<and>
   (readyToTest s \<and> ensureConnected env s = (Returned, s1) \<and>
    (ty = ''round-robin'' \<or> ty = ''random'' \<or> ty = ''extended-duration'' \<or>
     ty = ''single-binding'') \<and>
    (iteration env ty)\<^sup>*\<^sup>* (loopEntry env ty (enterRun env s1)) y \<and>
    loopCondition env ty y \<and> loopBody env ty y = (Threw e, s2) \<longrightarrow>
      runTest env ty s = Some (Threw e, s2)) \<and>
   (runTest env ty s = Some (Threw PublishError, s') \<longrightarrow>
    readyToTest s \<and> snapShots s' = snapShots s \<and>
    (\<exists>ps msg.
       channel s' = Some ((runChannel s)\<lparr>published := published (runChannel s) @ ps\<rparr>) \<and>
       totalMessagesSent s' = totalMessagesSent s + int (length ps) \<and>
       msg \<in> set (testMessages s) \<and>
       \<not> channel_publish env ((runChannel s)\<lparr>published := published (runChannel s) @ ps\<rparr>)
             (publicationOf msg)))"
proof (intro conjI impI)
  assume "forOfTestMessages env pre x = (Returned, x1) \<and> channel x1 = Some ch \<and>
    \<not> channel_publish env ch (publicationOf msg)"
  then show "forOfTestMessages env (pre @ msg # post) x = (Threw PublishError, x1)"
    by (auto intro: refused_publish_ends_pass)
next
  assume "randomNumber z = Some i \<and> elementAt (testMessages z) i = Some m \<and>
    channel z = Some c \<and> \<not> channel_publish env c (publicationOf m)"
  then show "publishRandomNumber env z = (Threw PublishError, z)"
    by (auto intro: refused_publish_at_index)
next
  assume a: "readyToTest s \<and> ensureConnected env s = (Returned, s1) \<and>
    (ty = ''round-robin'' \<or> ty = ''random'' \<or> ty = ''extended-duration'' \<or>
     ty = ''single-binding'') \<and>
    (iteration env ty)\<^sup>*\<^sup>* (loopEntry env ty (enterRun env s1)) y \<and>
    loopCondition env ty y \<and> loopBody env ty y = (Threw e, s2)"
  show "runTest env ty s = Some (Threw e, s2)"
    by (rule runTest_aborts [of s env s1 ty y e s2]) (simp_all add: a)
next
  assume a: "runTest env ty s = Some (Threw PublishError, s')"
  from aborted_run_state [OF a] show "readyToTest s" by simp
  from aborted_run_state [OF a] show "snapShots s' = snapShots s" by simp
  from aborted_run_state [OF a]
  show "\<exists>ps msg.
       channel s' = Some ((runChannel s)\<lparr>published := published (runChannel s) @ ps\<rparr>) \<and>
       totalMessagesSent s' = totalMessagesSent s + int (length ps) \<and>
       msg \<in> set (testMessages s) \<and>
       \<not> channel_publish env ((runChannel s)\<lparr>published := published (runChannel s) @ ps\<rparr>)
             (publicationOf msg)"
    by simp
qed

lemma flakyEnv_connects: "connectSucceeds flakyEnv"
  by (simp add: connectSucceeds_def flakyEnv_def)

lemma flakyState_0:
  "flakyState 0 = loopEntry flakyEnv ''extended-duration'' (enterRun flakyEnv preparedSession)"
  by (simp add: flakyState_def loopEntry_def enterRun_def preparedSession_eq demoSession_def
        constructor_def freshChannel_def)

lemma flakyState_fields:
  "channel (flakyState k) =
     Some (freshChannel\<lparr>published :=
             replicate k \<lparr>pub_exchange = ''X'', pub_key = ''k'',
                          pub_content = [(''type'', ''Stress Test'')]\<rparr>\<rparr>)"
  "testMessages (flakyState k) = testMessages preparedSession"
  "start (flakyState k) = Some 0" "testDuration (flakyState k) = Some 3600000"
  "clockCalls (flakyState k) = Suc k" "totalMessagesSent (flakyState k) = int k"
  "snapShots (flakyState k) = []"
  by (simp_all add: flakyState_def loopEntry_def enterRun_def preparedSession_fields flakyEnv_def)

lemma flakyState_iteration:
  assumes "k < 3"
  shows "iteration flakyEnv ''extended-duration'' (flakyState k) (flakyState (Suc k))"
proof -
  have go: "loopCondition flakyEnv ''extended-duration'' (flakyState k)"
    using assms by (simp add: loopCondition_def flakyState_fields flakyEnv_def)
  have "loopBody flakyEnv ''extended-duration'' (flakyState k) = (Returned, flakyState (Suc k))"
    using assms
    by (simp add: loopBody_def flakyState_fields preparedSession_fields publishMessage_def
          flakyEnv_def)
       (simp add: flakyState_def replicate_append_same)
  with go show ?thesis by (simp add: iteration_def)
qed

lemma flakyState_refused:
  "loopCondition flakyEnv ''extended-duration'' (flakyState 3) \<and>
   loopBody flakyEnv ''extended-duration'' (flakyState 3) =
     (Threw PublishError, (flakyState 3)\<lparr>clockCalls := 5\<rparr>)"
  by (simp add: loopCondition_def loopBody_def flakyState_fields preparedSession_fields
        publishMessage_def flakyEnv_def)

text \<open>
  The \<open>extended-duration\<close> run of the small topology against the broker that refuses
  from the fourth publication on: three passes return, the fourth throws, and so does
  \<open>runTest\<close>, with the counter at 3 and no snapshot.
\<close>

theorem publish_failure_aborts_run_witness:
  "readyToTest preparedSession \<and>
   ensureConnected flakyEnv preparedSession = (Returned, preparedSession) \<and>
   (iteration flakyEnv ''extended-duration'')\<^sup>*\<^sup>*
      (loopEntry flakyEnv ''extended-duration'' (enterRun flakyEnv preparedSession))
      (flakyState 3) \<and>
   loopCondition flakyEnv ''extended-duration'' (flakyState 3) \<and>
   loopBody flakyEnv ''extended-duration'' (flakyState 3) =
     (Threw PublishError, (flakyState 3)\<lparr>clockCalls := 5\<rparr>) \<and>
   runTest flakyEnv ''extended-duration'' preparedSession =
     Some (Threw PublishError, (flakyState 3)\<lparr>clockCalls := 5\<rparr>) \<and>
   totalMessagesSent ((flakyState 3)\<lparr>clockCalls := 5\<rparr>) = 3 \<and>
   snapShots ((flakyState 3)\<lparr>clockCalls := 5\<rparr>) = snapShots preparedSession \<and>
   forOfTestMessages flakyEnv (testMessages preparedSession) ((flakyState 3)\<lparr>clockCalls := 5\<rparr>) =
     (Threw PublishError, (flakyState 3)\<lparr>clockCalls := 5\<rparr>) \<and>
   publishRandomNumber flakyEnv ((flakyState 3)\<lparr>randomNumber := Some (Fin 0)\<rparr>) =
     (Threw PublishError, (flakyState 3)\<lparr>randomNumber := Some (Fin 0)\<rparr>)"
proof -
  define ty where "ty = ''extended-duration''"
  define s' where "s' = (flakyState 3)\<lparr>clockCalls := 5\<rparr>"
  define z where "z = (flakyState 3)\<lparr>randomNumber := Some (Fin 0)\<rparr>"
  define ch where "ch = freshChannel\<lparr>published :=
                     replicate 3 \<lparr>pub_exchange = ''X'', pub_key = ''k'',
                                  pub_content = [(''type'', ''Stress Test'')]\<rparr>\<rparr>"
  define msg where "msg = hd (testMessages preparedSession)"
  have ready: "readyToTest preparedSession" by (simp add: preparedSession_fields)
  have ec: "ensureConnected flakyEnv preparedSession = (Returned, preparedSession)"
    by (simp add: ensureConnected_def preparedSession_fields)
  have s01: "iteration flakyEnv ty (flakyState 0) (flakyState (Suc 0))"
    and s12: "iteration flakyEnv ty (flakyState (Suc 0)) (flakyState (Suc (Suc 0)))"
    and s23: "iteration flakyEnv ty (flakyState (Suc (Suc 0))) (flakyState (Suc (Suc (Suc 0))))"
    unfolding ty_def by (rule flakyState_iteration, simp)+
  have "(iteration flakyEnv ty)\<^sup>*\<^sup>* (flakyState 0) (flakyState (Suc 0))"
    using s01 by (rule r_into_rtranclp)
  then have "(iteration flakyEnv ty)\<^sup>*\<^sup>* (flakyState 0) (flakyState (Suc (Suc 0)))"
    using s12 by (rule rtranclp.rtrancl_into_rtrancl)
  then have "(iteration flakyEnv ty)\<^sup>*\<^sup>* (flakyState 0) (flakyState (Suc (Suc (Suc 0))))"
    using s23 by (rule rtranclp.rtrancl_into_rtrancl)
  then have chain: "(iteration flakyEnv ty)\<^sup>*\<^sup>*
      (loopEntry flakyEnv ty (enterRun flakyEnv preparedSession)) (flakyState 3)"
    by (simp add: flakyState_0 ty_def numeral_3_eq_3)
  have go: "loopCondition flakyEnv ty (flakyState 3)"
    and body: "loopBody flakyEnv ty (flakyState 3) = (Threw PublishError, s')"
    using flakyState_refused by (simp_all add: ty_def s'_def)
  have plan: "[] @ msg # [] = testMessages preparedSession"
    by (simp add: msg_def preparedSession_fields)
  have pre: "forOfTestMessages flakyEnv [] s' = (Returned, s')" by simp
  have chs: "channel s' = Some ch" "channel z = Some ch"
    by (simp_all add: s'_def z_def ch_def flakyState_fields)
  have refused: "\<not> channel_publish flakyEnv ch (publicationOf msg)"
    by (simp add: flakyEnv_def ch_def)
  have idx: "randomNumber z = Some (Fin 0)" "elementAt (testMessages z) (Fin 0) = Some msg"
    by (simp_all add: z_def msg_def flakyState_fields preparedSession_fields elementAt_def)
  note th = publish_failure_aborts_run
      [where env = flakyEnv and s = preparedSession and ?s1.0 = preparedSession and ty = ty
         and y = "flakyState 3" and e = PublishError and ?s2.0 = s' and s' = s'
         and pre = "[]" and x = s' and ?x1.0 = s' and ch = ch and msg = msg and post = "[]"
         and z = z and i = "Fin 0" and m = msg and c = ch]
  from th ready ec chain go body
  have run: "runTest flakyEnv ty preparedSession = Some (Threw PublishError, s')"
    by (simp add: ty_def)
  with th have snaps: "snapShots s' = snapShots preparedSession" by simp
  have count: "totalMessagesSent s' = 3" by (simp add: s'_def flakyState_fields)
  from th pre chs(1) refused
  have "forOfTestMessages flakyEnv ([] @ msg # []) s' = (Threw PublishError, s')" by blast
  then have pass: "forOfTestMessages flakyEnv (testMessages preparedSession) s' =
      (Threw PublishError, s')"
    by (simp only: plan)
  from th idx chs(2) refused
  have draw: "publishRandomNumber flakyEnv z = (Threw PublishError, z)" by blast
  show ?thesis
    using ready ec chain go body run snaps count pass draw
    unfolding ty_def s'_def z_def by simp
qed

lemma aborted_run:
  "runTest flakyEnv ''random'' preparedSession = Some (Threw PublishError, abortedSession)"
proof -
  have "map_option fst (runTest flakyEnv ''random'' preparedSession) = Some (Threw PublishError)"
    by code_simp
  then show ?thesis
    by (auto simp: abortedSession_def)
qed

lemma abortedSession_count: "totalMessagesSent abortedSession = 3"
  by code_simp

section \<open>The counter\<close>

lemma publishMessage_result:
  assumes "publishMessage env x k m s = (out, s1)"
  shows "(out = Returned \<and> totalMessagesSent s1 = totalMessagesSent s + 1) \<or>
         (out \<noteq> Returned \<and> s1 = s)"
  using assms
  by (auto simp: publishMessage_def Let_def split: option.splits if_splits)

text \<open>
  Claim C4, as the code has it.  The counter is not set to 0 when a run starts: it is
  set to 0 when a run completes, after the snapshot, and by the constructor and
  \<open>updateRabbitStressTest\<close>.  A publish that succeeds adds exactly one, a publish that
  throws changes nothing, and nothing in a run takes away from the counter before
  that final reset: the count a completed run records is the count it started with
  plus the number of publications it made.  Hence a run that follows a completed run,
  a construction or a configuration update starts from 0.
\<close>

theorem counter_reset_when_run_completes:
  "(publishMessage env x k m s = (Returned, s1) \<longrightarrow>
      totalMessagesSent s1 = totalMessagesSent s + 1) \<and>
   (publishMessage env x k m s = (Threw e, s1) \<longrightarrow> s1 = s) \<and>
   (readyToTest s \<and> runTest env ty s = Some (Returned, s2) \<longrightarrow>
      totalMessagesSent s2 = 0 \<and>
      (\<exists>sn ps. snapShots s2 = snapShots s @ [sn] \<and>
         snap_totalMessagesSent sn = totalMessagesSent s + int (length ps) \<and>
         channel s2 = Some ((runChannel s)\<lparr>published := published (runChannel s) @ ps,
                                           channel_closed := True\<rparr>))) \<and>
   (runTest env ty s = Some (Threw e, s2) \<longrightarrow> totalMessagesSent s \<le> totalMessagesSent s2) \<and>
   totalMessagesSent (updateRabbitStressTest a excs bs msg s) = 0 \<and>
   totalMessagesSent (constructor a' excs' bs' msg' tgt') = 0"
proof (intro conjI impI)
  assume "publishMessage env x k m s = (Returned, s1)"
  from publishMessage_result [OF this]
  show "totalMessagesSent s1 = totalMessagesSent s + 1" by simp
next
  assume "publishMessage env x k m s = (Threw e, s1)"
  from publishMessage_result [OF this] show "s1 = s" by simp
next
  assume a: "readyToTest s \<and> runTest env ty s = Some (Returned, s2)"
  from runTest_result [of env ty s Returned s2] a
  obtain s1 s3 where ec: "ensureConnected env s = (Returned, s1)"
    and sw: "switchType env ty (enterRun env s1) = Some (Returned, s3)"
    and s2: "s2 = finishRun env (Date_now env (clockCalls s1)) ty s3"
    by auto
  show "totalMessagesSent s2 = 0" by (simp add: s2 finishRun_fields)
  note c = ensureConnected_Returned [OF ec]
  from switchType_runStep [OF sw]
  have st: "runStep env (enterRun env s1) Returned s3" .
  have ch: "channel (enterRun env s1) = Some (runChannel s)"
    using c by (simp add: enterRun_fields)
  from st ch obtain ps where ps:
    "channel s3 = Some ((runChannel s)\<lparr>published := published (runChannel s) @ ps\<rparr>)"
    "totalMessagesSent s3 = totalMessagesSent s + int (length ps)"
    using c by (auto simp: runStep_def enterRun_fields)
  have snaps: "snapShots s3 = snapShots s"
    using st c by (simp add: runStep_def enterRun_fields)
  obtain sn where sn: "snapShots s2 = snapShots s @ [sn]"
    "snap_totalMessagesSent sn = totalMessagesSent s + int (length ps)"
    by (simp add: s2 finishRun_fields snaps ps)
  have "channel s2 = Some ((runChannel s)\<lparr>published := published (runChannel s) @ ps,
                                           channel_closed := True\<rparr>)"
    by (simp add: s2 finishRun_fields ps)
  with sn show "\<exists>sn ps. snapShots s2 = snapShots s @ [sn] \<and>
         snap_totalMessagesSent sn = totalMessagesSent s + int (length ps) \<and>
         channel s2 = Some ((runChannel s)\<lparr>published := published (runChannel s) @ ps,
                                           channel_closed := True\<rparr>)"
    by blast
next
  assume a: "runTest env ty s = Some (Threw e, s2)"
  have ready: "readyToTest s"
    using a by (cases "readyToTest s") (simp_all add: runTest_unfold)
  from runTest_result [OF a ready]
  consider (connect) "ensureConnected env s = (Threw e, s2)"
    | (run) s1 where "ensureConnected env s = (Returned, s1)"
        "switchType env ty (enterRun env s1) = Some (Threw e, s2)"
    by auto
  then show "totalMessagesSent s \<le> totalMessagesSent s2"
  proof cases
    case connect
    from ensureConnected_Threw [OF this] show ?thesis by simp
  next
    case run
    note c = ensureConnected_Returned [OF run(1)]
    have ch: "channel (enterRun env s1) = Some (runChannel s)"
      using c by (simp add: enterRun_fields)
    from switchType_runStep [OF run(2)] ch c show ?thesis
      by (auto simp: runStep_def enterRun_fields)
  qed
next
  show "totalMessagesSent (updateRabbitStressTest a excs bs msg s) = 0"
    by (simp add: updateRabbitStressTest_def Let_def split: option.splits)
next
  show "totalMessagesSent (constructor a' excs' bs' msg' tgt') = 0"
    by (simp add: constructor_def)
qed

theorem counter_reset_when_run_completes_witness:
  "readyToTest preparedSession \<and>
   (\<exists>s2. runTest reliableEnv ''random'' preparedSession = Some (Returned, s2) \<and>
      totalMessagesSent s2 = 0) \<and>
   runTest flakyEnv ''random'' preparedSession = Some (Threw PublishError, abortedSession) \<and>
   totalMessagesSent preparedSession \<le> totalMessagesSent abortedSession"
proof -
  have ready: "readyToTest preparedSession" by (simp add: preparedSession_fields)
  have "map_option fst (runTest reliableEnv ''random'' preparedSession) = Some Returned"
    by code_simp
  then obtain s2 where run: "runTest reliableEnv ''random'' preparedSession = Some (Returned, s2)"
    by auto
  from counter_reset_when_run_completes
         [of reliableEnv "''X''" "''k''" "[]" preparedSession preparedSession PublishError
             "''random''" s2]
    ready run
  have "totalMessagesSent s2 = 0" by blast
  moreover
  from counter_reset_when_run_completes
         [of flakyEnv "''X''" "''k''" "[]" preparedSession preparedSession PublishError
             "''random''" abortedSession]
    aborted_run
  have "totalMessagesSent preparedSession \<le> totalMessagesSent abortedSession" by blast
  ultimately show ?thesis using ready run aborted_run by blast
qed

text \<open>
  The claim as the specification words it fails.  After the run that the refusing
  broker aborted, the session is connected again; it is ready and its counter is 3;
  the next \<open>random\<close> run towards the target 5 completes, records 6 messages and has
  published 3.
\<close>

theorem counter_not_reset_at_start_counterexample:
  "totalMessagesSent reconnectedSession = 3 \<and>
   readyToTest reconnectedSession \<and>
   map_option fst (runTest flakyEnv ''random'' reconnectedSession) = Some Returned \<and>
   recordedCounts (runTest flakyEnv ''random'' reconnectedSession) = [6] \<and>
   length (publishedBy (runTest flakyEnv ''random'' reconnectedSession)) = 3"
  by code_simp

section \<open>Compiling\<close>

lemma exchange_field_type:
  assumes "map_of (exchangeProperties p) k = Some v"
  shows "typeOfProperty v = Inr (if k = ''arguments'' then map_of (arguments p) ''type'' else None)"
  using assms by (auto simp: exchangeProperties_def split: if_splits)

lemma exchange_field_absent:
  "map_of (exchangeProperties p) k = None \<longleftrightarrow> k \<notin> set exchange_keys"
  by (simp add: exchangeProperties_def exchange_keys_def)

lemma typeOfProperty_fromObjectPrototype:
  "typeOfProperty (fromObjectPrototype k) =
     (if k \<in> set Object_prototype_keys then Inr None else Inl TypeError)"
  by (simp add: fromObjectPrototype_def)

lemma proto_key_inherited: "''__proto__'' \<in> set Object_prototype_keys"
  by (simp add: Object_prototype_keys_def)

lemma exchangeTypeOf_cases:
  "exchangeTypeOf obj k =
     (case own obj k of
        Some exc \<Rightarrow> Inr (Some (type exc))
      | None \<Rightarrow>
          (case proto obj of
             None \<Rightarrow> if k \<in> set Object_prototype_keys then Inr None else Inl TypeError
           | Some p \<Rightarrow>
               if k = ''__proto__'' then Inr (Some (type p))
               else if k \<in> set exchange_keys
                 then Inr (if k = ''arguments'' then map_of (arguments p) ''type'' else None)
               else if k \<in> set Object_prototype_keys then Inr None else Inl TypeError))"
proof (cases "own obj k")
  case (Some exc)
  then show ?thesis by (simp add: exchangeTypeOf_def getProperty_def)
next
  case None
  show ?thesis
  proof (cases "proto obj")
    case None
    with \<open>own obj k = None\<close> show ?thesis
      by (simp add: exchangeTypeOf_def getProperty_def typeOfProperty_fromObjectPrototype)
  next
    case (Some p)
    show ?thesis
    proof (cases "map_of (exchangeProperties p) k")
      case None
      then have "k \<notin> set exchange_keys" by (rule iffD1 [OF exchange_field_absent])
      with None Some \<open>own obj k = None\<close> show ?thesis
        by (simp add: exchangeTypeOf_def getProperty_def typeOfProperty_fromObjectPrototype)
    next
      case (Some v)
      then have "k \<in> set exchange_keys"
        using exchange_field_absent [of p k] by auto
      with Some \<open>proto obj = Some p\<close> \<open>own obj k = None\<close> exchange_field_type [OF Some]
      show ?thesis
        by (simp add: exchangeTypeOf_def getProperty_def)
    qed
  qed
qed

lemma arguments_is_exchange_key: "''arguments'' \<in> set exchange_keys"
  by (simp add: exchange_keys_def)

lemma exchangeTypeOf_resolves:
  assumes "resolves obj b"
  shows "exchangeTypeOf obj (source b) =
       Inr (case own obj (source b) of
              Some exc \<Rightarrow> Some (type exc)
            | None \<Rightarrow>
                (case proto obj of
                   None \<Rightarrow> None
                 | Some p \<Rightarrow>
                     if source b = ''__proto__'' then Some (type p)
                     else if source b = ''arguments'' then map_of (arguments p) ''type''
                     else None))"
  using assms arguments_is_exchange_key
  by (auto simp: resolves_def exchangeTypeOf_cases split: option.splits)

lemma exchangeTypeOf_unresolved:
  assumes "\<not> resolves obj b"
  shows "exchangeTypeOf obj (source b) = Inl TypeError"
  using assms proto_key_inherited
  by (auto simp: resolves_def exchangeTypeOf_cases split: option.splits)

lemma compiledEntry_cong:
  "exchanges s1 = exchanges s \<Longrightarrow> rabbitAddress s1 = rabbitAddress s \<Longrightarrow> message s1 = message s
     \<Longrightarrow> compiledEntry s1 = compiledEntry s"
  by (simp add: compiledEntry_def fun_eq_iff split: option.splits)

lemma forEachBinding_resolved:
  assumes "\<forall>b \<in> set bs. resolves (exchanges s) b"
  shows "forEachBinding bs s =
           (Returned, s\<lparr>testMessages := testMessages s @ map (compiledEntry s) bs\<rparr>)"
  using assms
proof (induction bs arbitrary: s)
  case Nil
  then show ?case by simp
next
  case (Cons b bs)
  define s1 where "s1 = s\<lparr>testMessages := testMessages s @ [compiledEntry s b]\<rparr>"
  have b: "resolves (exchanges s) b" using Cons.prems by simp
  have step: "forEachBinding (b # bs) s = forEachBinding bs s1"
    by (simp add: exchangeTypeOf_resolves [OF b] s1_def compiledEntry_def)
  have same: "compiledEntry s1 = compiledEntry s"
    by (rule compiledEntry_cong) (simp_all add: s1_def)
  have "\<forall>b \<in> set bs. resolves (exchanges s1) b" using Cons.prems by (simp add: s1_def)
  from Cons.IH [OF this] show ?case
    unfolding step same by (simp add: s1_def)
qed

lemma forEachBinding_unresolved:
  assumes "\<forall>b \<in> set good. resolves (exchanges s) b" and "\<not> resolves (exchanges s) bad"
  shows "forEachBinding (good @ bad # rest) s =
           (Threw TypeError, s\<lparr>testMessages := testMessages s @ map (compiledEntry s) good\<rparr>)"
  using assms
proof (induction good arbitrary: s)
  case Nil
  then show ?case by (simp add: exchangeTypeOf_unresolved)
next
  case (Cons b good)
  define s1 where "s1 = s\<lparr>testMessages := testMessages s @ [compiledEntry s b]\<rparr>"
  have b: "resolves (exchanges s) b" using Cons.prems by simp
  have step: "forEachBinding ((b # good) @ bad # rest) s = forEachBinding (good @ bad # rest) s1"
    by (simp add: exchangeTypeOf_resolves [OF b] s1_def compiledEntry_def)
  have same: "compiledEntry s1 = compiledEntry s"
    by (rule compiledEntry_cong) (simp_all add: s1_def)
  have "\<forall>b \<in> set good. resolves (exchanges s1) b" "\<not> resolves (exchanges s1) bad"
    using Cons.prems by (simp_all add: s1_def)
  from Cons.IH [OF this] show ?case
    unfolding step same by (simp add: s1_def)
qed

lemma connectToRabbitMQ_fields:
  assumes "connectToRabbitMQ env s = (out, s1)"
  shows "exchanges s1 = exchanges s" "rabbitAddress s1 = rabbitAddress s"
    "message s1 = message s" "bindings s1 = bindings s" "testMessages s1 = testMessages s"
    "readyToTest s1 = readyToTest s" "snapShots s1 = snapShots s"
    "totalMessagesSent s1 = totalMessagesSent s" "target s1 = target s"
  using assms by (auto simp: connectToRabbitMQ_def Let_def split: if_splits)

lemma prepTests_Returned:
  assumes "prepTests env s = (Returned, s')"
  shows "\<exists>s1. connectToRabbitMQ env s = (Returned, s1) \<and>
           (\<forall>b \<in> set (bindings s). resolves (exchanges s) b) \<and>
           s' = s1\<lparr>testMessages := testMessages s @ map (compiledEntry s) (bindings s),
                   readyToTest := True\<rparr>"
proof -
  obtain o1 s1 where c: "connectToRabbitMQ env s = (o1, s1)"
    by (cases "connectToRabbitMQ env s")
  note f = connectToRabbitMQ_fields [OF c]
  have o1: "o1 = Returned" using assms c by (cases o1) (simp_all add: prepTests_def)
  have same: "compiledEntry s1 = compiledEntry s"
    by (rule compiledEntry_cong) (simp_all add: f)
  show ?thesis
  proof (cases "\<forall>b \<in> set (bindings s). resolves (exchanges s) b")
    case True
    then have "\<forall>b \<in> set (bindings s1). resolves (exchanges s1) b" by (simp add: f)
    from forEachBinding_resolved [OF this] assms c o1 True show ?thesis
      by (simp add: prepTests_def same f)
  next
    case False
    then obtain good bad rest where split: "bindings s = good @ bad # rest"
      "\<not> resolves (exchanges s) bad" "\<forall>b \<in> set good. resolves (exchanges s) b"
      using split_list_first_prop [of "bindings s" "\<lambda>b. \<not> resolves (exchanges s) b"] by auto
    then have "\<forall>b \<in> set good. resolves (exchanges s1) b" "\<not> resolves (exchanges s1) bad"
      by (simp_all add: f)
    from forEachBinding_unresolved [OF this, of rest] assms c o1 split(1) show ?thesis
      by (simp add: prepTests_def f)
  qed
qed

text \<open>
  Claim C3, as the code has it.  \<open>prepTests\<close> appends one element for each binding, in
  the order of the bindings, to the plan it finds; a second \<open>prepTests\<close> on the same
  session appends the same elements once more.  The plan after two calls is the plan
  after one call only when there are no bindings.
\<close>

theorem prepTests_twice_appends_again:
  assumes "prepTests env s = (Returned, s1)" and "prepTests env s1 = (Returned, s2)"
  shows "testMessages s1 = testMessages s @ map (compiledEntry s) (bindings s) \<and>
         testMessages s2 = testMessages s1 @ map (compiledEntry s) (bindings s) \<and>
         (testMessages s2 = testMessages s1 \<longleftrightarrow> bindings s = [])"
proof -
  from prepTests_Returned [OF assms(1)]
  obtain c1 where c1: "connectToRabbitMQ env s = (Returned, c1)"
    and s1: "s1 = c1\<lparr>testMessages := testMessages s @ map (compiledEntry s) (bindings s),
                     readyToTest := True\<rparr>"
    by blast
  note f = connectToRabbitMQ_fields [OF c1]
  have one: "testMessages s1 = testMessages s @ map (compiledEntry s) (bindings s)"
    by (simp add: s1)
  have same: "compiledEntry s1 = compiledEntry s"
    by (rule compiledEntry_cong) (simp_all add: s1 f)
  have bs: "bindings s1 = bindings s" by (simp add: s1 f)
  from prepTests_Returned [OF assms(2)]
  have two: "testMessages s2 = testMessages s1 @ map (compiledEntry s) (bindings s)"
    by (auto simp: same bs)
  show ?thesis using one two by simp
qed

lemma prepTests_preparedSession:
  "prepTests reliableEnv preparedSession =
     (Returned,
      preparedSession\<lparr>testMessages := testMessages preparedSession @ testMessages preparedSession\<rparr>)"
proof -
  have "preparedSession\<lparr>connection :=
            Some \<lparr>peer = rabbitAddress preparedSession, connection_closed = False\<rparr>,
          channel := Some freshChannel\<rparr> = preparedSession"
    by (simp add: preparedSession_eq demoSession_fields)
  then have c: "connectToRabbitMQ reliableEnv preparedSession = (Returned, preparedSession)"
    by (simp add: connectToRabbitMQ_succeeds [OF reliableEnv_ok(1)])
  have b: "\<forall>b \<in> set (bindings preparedSession). resolves (exchanges preparedSession) b"
    by (simp add: preparedSession_eq demoSession_fields resolves_def bindingK_def)
  have e: "map (compiledEntry preparedSession) (bindings preparedSession) = testMessages preparedSession"
    by (simp add: preparedSession_eq demoSession_fields compiledEntry_def bindingK_def exchangeX_def)
  have r: "preparedSession\<lparr>readyToTest := True\<rparr> = preparedSession"
    by (simp add: preparedSession_eq)
  have "prepTests reliableEnv preparedSession =
     (Returned,
      preparedSession\<lparr>testMessages := testMessages preparedSession @
                        map (compiledEntry preparedSession) (bindings preparedSession),
                      readyToTest := True\<rparr>)"
    unfolding prepTests_def c by (simp add: forEachBinding_resolved [OF b])
  also have "preparedSession\<lparr>testMessages := testMessages preparedSession @
                        map (compiledEntry preparedSession) (bindings preparedSession),
                      readyToTest := True\<rparr> =
      preparedSession\<lparr>testMessages := testMessages preparedSession @ testMessages preparedSession\<rparr>"
    unfolding e by (simp add: preparedSession_eq)
  finally show ?thesis .
qed

theorem prepTests_twice_appends_again_witness:
  "prepTests reliableEnv demoSession = (Returned, preparedSession) \<and>
   prepTests reliableEnv preparedSession =
     (Returned,
      preparedSession\<lparr>testMessages := testMessages preparedSession @ testMessages preparedSession\<rparr>) \<and>
   testMessages
     (preparedSession\<lparr>testMessages := testMessages preparedSession @ testMessages preparedSession\<rparr>)
     = testMessages preparedSession @ map (compiledEntry demoSession) (bindings demoSession)"
proof -
  have one: "prepTests reliableEnv demoSession = (Returned, preparedSession)"
    by (simp add: preparedSession_def prepTests_demoSession [OF reliableEnv_ok(1)])
  from prepTests_twice_appends_again [OF one prepTests_preparedSession] one
    prepTests_preparedSession
  show ?thesis by blast
qed

text \<open>
  The claim as the specification words it fails on the small topology: the second
  \<open>prepTests\<close> returns and leaves a plan that differs from the plan after the first.
\<close>

theorem prepTests_not_idempotent_counterexample:
  "fst (prepTests reliableEnv preparedSession) = Returned \<and>
   testMessages (snd (prepTests reliableEnv preparedSession)) \<noteq> testMessages preparedSession"
  by (simp add: prepTests_preparedSession preparedSession_fields)

lemma prepTests_throws:
  assumes c: "connectToRabbitMQ env s = (Returned, s1)"
    and bs: "bindings s = good @ bad # rest"
    and good: "\<forall>b \<in> set good. resolves (exchanges s) b"
    and bad: "\<not> resolves (exchanges s) bad"
  shows "prepTests env s =
           (Threw TypeError, s1\<lparr>testMessages := testMessages s @ map (compiledEntry s) good\<rparr>)"
proof -
  note f = connectToRabbitMQ_fields [OF c]
  have same: "compiledEntry s1 = compiledEntry s"
    by (rule compiledEntry_cong) (simp_all add: f)
  have "\<forall>b \<in> set good. resolves (exchanges s1) b" "\<not> resolves (exchanges s1) bad"
    using good bad by (simp_all add: f)
  from forEachBinding_unresolved [OF this, of rest] bs show ?thesis
    by (simp add: prepTests_def c f same)
qed

lemma prepTests_returns:
  assumes c: "connectToRabbitMQ env s = (Returned, s1)"
    and all: "\<forall>b \<in> set (bindings s). resolves (exchanges s) b"
  shows "prepTests env s =
           (Returned,
            s1\<lparr>testMessages := testMessages s @ map (compiledEntry s) (bindings s),
               readyToTest := True\<rparr>)"
proof -
  note f = connectToRabbitMQ_fields [OF c]
  have same: "compiledEntry s1 = compiledEntry s"
    by (rule compiledEntry_cong) (simp_all add: f)
  have "\<forall>b \<in> set (bindings s1). resolves (exchanges s1) b" using all by (simp add: f)
  from forEachBinding_resolved [OF this] show ?thesis
    by (simp add: prepTests_def c f same)
qed

text \<open>
  Claim C5, as the code has it.  Once connected, \<open>prepTests\<close> throws a \<open>TypeError\<close> at
  the first binding whose source cannot be read from \<open>this.exchanges\<close>: it is not a
  key under which an exchange was stored, not the name of a property that every
  object inherits and, when an exchange named \<open>__proto__\<close> was given, not the name of
  a field of an exchange either (that exchange is the prototype of \<open>this.exchanges\<close>
  then, and its fields are inherited).  The call does not mark the session ready and
  compiles no later binding, but the elements of the bindings before that one stay
  appended to the plan.  When every source can be read, inherited names included,
  every binding is compiled and the session becomes ready.
\<close>

theorem prepTests_unresolved_source:
  assumes "connectToRabbitMQ env s = (Returned, s1)"
  shows "(bindings s = good @ bad # rest \<and> (\<forall>b \<in> set good. resolves (exchanges s) b) \<and>
            \<not> resolves (exchanges s) bad \<longrightarrow>
          prepTests env s =
            (Threw TypeError,
             s1\<lparr>testMessages := testMessages s @ map (compiledEntry s) good\<rparr>) \<and>
          readyToTest (snd (prepTests env s)) = readyToTest s) \<and>
         ((\<forall>b \<in> set (bindings s). resolves (exchanges s) b) \<longrightarrow>
          prepTests env s =
            (Returned,
             s1\<lparr>testMessages := testMessages s @ map (compiledEntry s) (bindings s),
                readyToTest := True\<rparr>))"
  using prepTests_throws [OF assms, of good bad rest] prepTests_returns [OF assms]
    connectToRabbitMQ_fields(6) [OF assms]
  by auto

lemma mixedSession_fields:
  "bindings mixedSession = [bindingK] @ bindingUnknown # []"
  "exchanges mixedSession = \<lparr>own = [''X'' \<mapsto> exchangeX], proto = None\<rparr>"
  "testMessages mixedSession = []" "readyToTest mixedSession = False"
  "rabbitAddress mixedSession = ''amqp://localhost''"
  "message mixedSession = [(''type'', ''Stress Test'')]"
  by (simp_all add: mixedSession_def constructor_def exchangeX_def emptyObject_def
        setProperty_def)

lemma mixedSession_resolves:
  "\<forall>b \<in> set [bindingK]. resolves (exchanges mixedSession) b"
  "\<not> resolves (exchanges mixedSession) bindingUnknown"
  by (simp_all add: mixedSession_fields resolves_def bindingK_def bindingUnknown_def
        Object_prototype_keys_def)

lemma protoSession_fields:
  "bindings protoSession = [bindingK\<lparr>source := ''vhost''\<rparr>]"
  "exchanges protoSession =
     \<lparr>own = Map.empty, proto = Some (exchangeX\<lparr>name := ''__proto__''\<rparr>)\<rparr>"
  "testMessages protoSession = []" "readyToTest protoSession = False"
  by (simp_all add: protoSession_def constructor_def emptyObject_def setProperty_def)

lemma protoSession_resolves:
  "\<forall>b \<in> set (bindings protoSession). resolves (exchanges protoSession) b"
  by (simp add: protoSession_fields resolves_def exchange_keys_def)

text \<open>
  With the exchange \<open>X\<close> and the bindings of \<open>X\<close> and of the unknown \<open>Y\<close>,
  \<open>prepTests\<close> throws after compiling the first binding.  With an exchange named
  \<open>__proto__\<close> and a binding whose source is \<open>vhost\<close>, no exchange is stored under
  a key, yet the source is read (it is the string \<open>/\<close>, whose \<open>type\<close> is
  \<open>undefined\<close>): \<open>prepTests\<close> returns, and the binding is compiled with an undefined
  exchange type.
\<close>

theorem prepTests_unresolved_source_witness:
  "bindings mixedSession = [bindingK] @ bindingUnknown # [] \<and>
   \<not> resolves (exchanges mixedSession) bindingUnknown \<and>
   fst (prepTests reliableEnv mixedSession) = Threw TypeError \<and>
   testMessages (snd (prepTests reliableEnv mixedSession)) = [compiledEntry mixedSession bindingK] \<and>
   readyToTest (snd (prepTests reliableEnv mixedSession)) = False \<and>
   own (exchanges protoSession) = Map.empty \<and>
   fst (prepTests reliableEnv protoSession) = Returned \<and>
   map exchangeName (testMessages (snd (prepTests reliableEnv protoSession))) = [''vhost''] \<and>
   map exchangeType (testMessages (snd (prepTests reliableEnv protoSession))) = [None] \<and>
   readyToTest (snd (prepTests reliableEnv protoSession))"
proof -
  from prepTests_unresolved_source
          [OF connectToRabbitMQ_succeeds [OF reliableEnv_ok(1)],
           of mixedSession "[bindingK]" bindingUnknown "[]"]
    mixedSession_resolves
  have a: "bindings mixedSession = [bindingK] @ bindingUnknown # [] \<and>
   \<not> resolves (exchanges mixedSession) bindingUnknown \<and>
   fst (prepTests reliableEnv mixedSession) = Threw TypeError \<and>
   testMessages (snd (prepTests reliableEnv mixedSession)) = [compiledEntry mixedSession bindingK] \<and>
   readyToTest (snd (prepTests reliableEnv mixedSession)) = False"
    by (simp add: mixedSession_fields)
  from prepTests_unresolved_source
          [OF connectToRabbitMQ_succeeds [OF reliableEnv_ok(1)],
           of protoSession "[]" bindingUnknown "[]"]
    protoSession_resolves
  have b: "own (exchanges protoSession) = Map.empty \<and>
   fst (prepTests reliableEnv protoSession) = Returned \<and>
   map exchangeName (testMessages (snd (prepTests reliableEnv protoSession))) = [''vhost''] \<and>
   map exchangeType (testMessages (snd (prepTests reliableEnv protoSession))) = [None] \<and>
   readyToTest (snd (prepTests reliableEnv protoSession))"
    by (simp add: protoSession_fields compiledEntry_def)
  from a b show ?thesis by simp
qed

text \<open>
  The claim as the specification words it fails: with a good binding before the one
  of unknown source, \<open>prepTests\<close> throws and the plan is not what it was.
\<close>

theorem prepTests_partial_plan_counterexample:
  "fst (prepTests reliableEnv mixedSession) = Threw TypeError \<and>
   testMessages (snd (prepTests reliableEnv mixedSession)) \<noteq> testMessages mixedSession"
  using prepTests_throws [OF connectToRabbitMQ_succeeds [OF reliableEnv_ok(1)]
          mixedSession_fields(1) mixedSession_resolves]
  by (simp add: mixedSession_fields)

text \<open>
  A source named like a property of \<open>Object.prototype\<close> raises nothing: the element
  is compiled with an undefined exchange type.
\<close>

lemma inherited_source_is_compiled:
  assumes "connectSucceeds env"
  shows "fst (prepTests env (constructor a [] [bindingK\<lparr>source := ''toString''\<rparr>] None None))
           = Returned \<and>
         map exchangeType
           (testMessages
              (snd (prepTests env (constructor a [] [bindingK\<lparr>source := ''toString''\<rparr>] None None))))
           = [None]"
  by (simp add: prepTests_def connectToRabbitMQ_succeeds [OF assms] constructor_def
        exchangeTypeOf_cases emptyObject_def Object_prototype_keys_def)

end
